theory Spec2Isabelle
  imports Complex_Main "HOL-Library.Word"
begin

section \<open>JavaScript values used by the modules\<close>

text \<open>
  A JavaScript string is a sequence of UTF-16 code units. \<open>String.fromCharCode\<close> keeps the
  low 16 bits of its argument, \<open>charCodeAt\<close> reads a unit back as a number. Numbers that the
  modules compute with are integers here; a number that may be \<open>NaN\<close> or \<open>undefined\<close> is an
  \<open>int option\<close> with \<open>None\<close> for both.
\<close>

type_synonym jsstring = "16 word list"

definition fromCharCode :: "int \<Rightarrow> 16 word" where
  "fromCharCode n = word_of_int n"

definition charCode :: "16 word \<Rightarrow> int" where
  "charCode c = uint c"

definition charCodeAt :: "jsstring \<Rightarrow> nat \<Rightarrow> int option" where
  "charCodeAt s i = (if i < length s then Some (charCode (s ! i)) else None)"

text \<open>\<open>Array.prototype.indexOf\<close>: the first index holding the value, \<open>-1\<close> when absent.\<close>

primrec indexOf :: "int list \<Rightarrow> int \<Rightarrow> int" where
  "indexOf [] v = -1"
| "indexOf (a # as) v =
     (if a = v then 0 else (let r = indexOf as v in if r = -1 then -1 else r + 1))"

text \<open>
  \<open>parseInt(c, 10)\<close> of a one-unit string: the decimal digit, else \<open>NaN\<close>. An absent unit
  (\<open>undefined\<close>) parses to \<open>NaN\<close> as well.
\<close>

definition parseInt10 :: "16 word option \<Rightarrow> int option" where
  "parseInt10 c =
     (case c of None \<Rightarrow> None
      | Some u \<Rightarrow> (if 48 \<le> charCode u \<and> charCode u \<le> 57 then Some (charCode u - 48) else None))"

section \<open>Packed: the CostMatrix codec\<close>

text \<open>
  \<open>PathFinder.CostMatrix\<close> is a class of the game engine: its \<open>_bits\<close> is a
  \<open>Uint8Array(2500)\<close>, cell \<open>(x, y)\<close> at index \<open>x * 50 + y\<close>. The prototype extension adds the
  lazily created array \<open>_costMap\<close> (read through the getter \<open>costMap\<close>).
\<close>

record CostMatrix =
  bits :: "8 word list"
  costMap :: "int list"

definition new_CostMatrix :: CostMatrix where
  "new_CostMatrix = \<lparr>bits = replicate 2500 0, costMap = []\<rparr>"

text \<open>The module constants \<open>SPACER\<close> and \<open>TRIGGER\<close> (the latter as Atlas.js and Packed declare it).\<close>

definition SPACER :: int where
  "SPACER = 22"

definition TRIGGER :: "16 word" where
  "TRIGGER = fromCharCode 65355"

text \<open>
  A store into a typed array: an index outside the array is ignored, the value is reduced
  modulo 256, \<open>NaN\<close> and \<open>undefined\<close> are stored as 0.
\<close>

definition toUint8 :: "int option \<Rightarrow> 8 word" where
  "toUint8 v = (case v of None \<Rightarrow> 0 | Some n \<Rightarrow> word_of_int n)"

definition typed_store :: "8 word list \<Rightarrow> int \<Rightarrow> int option \<Rightarrow> 8 word list" where
  "typed_store b i v = (if 0 \<le> i \<and> i < int (length b) then b[nat i := toUint8 v] else b)"

text \<open>
  The three lines shared by \<open>update\<close> and \<open>pack\<close>:
  \<^verbatim>\<open>let offset = OFFSETS.indexOf(cost); if (offset === -1) { offset = OFFSETS.push(cost) - 1; }\<close>
  The result is the offset and the symbol table after the possible push.
\<close>

definition offsetOf :: "int list \<Rightarrow> int \<Rightarrow> int \<times> int list" where
  "offsetOf offs cost =
     (let offset = indexOf offs cost
      in if offset = -1 then (int (length (offs @ [cost])) - 1, offs @ [cost])
         else (offset, offs))"

text \<open>\<open>CostMatrix.prototype.update(x, y, cost)\<close>; returns the matrix and \<open>OFFSETS\<close> as mutated.\<close>

definition update :: "int \<Rightarrow> int \<Rightarrow> int \<Rightarrow> CostMatrix \<Rightarrow> int list \<Rightarrow> CostMatrix \<times> int list" where
  "update x y cost m offs =
     (let index = x * 50 + y;
          b = typed_store (bits m) index (Some (min (max 0 cost) 255));
          (offset, offs') = offsetOf offs cost
      in (m\<lparr>bits := b, costMap := costMap m @ [index * SPACER + offset]\<rparr>, offs'))"

text \<open>
  The loop of \<open>pack\<close> over \<open>this._bits\<close>, from index \<open>i\<close> on; the arguments are the cells not
  yet visited, the symbol table and the cost map built so far.
\<close>

fun pack_loop :: "nat \<Rightarrow> 8 word list \<Rightarrow> int list \<Rightarrow> int list \<Rightarrow> int list \<times> int list" where
  "pack_loop i [] offs cm = (offs, cm)"
| "pack_loop i (c # cs) offs cm =
     (if c = 0 then pack_loop (Suc i) cs offs cm
      else (let cost = uint c;
                (offset, offs') = offsetOf offs cost
            in pack_loop (Suc i) cs offs' (cm @ [int i * SPACER + offset])))"

text \<open>
  \<open>CostMatrix.prototype.pack()\<close>; returns the string, the matrix (its cost map is filled by
  the call) and \<open>OFFSETS\<close> as mutated.
\<close>

definition pack :: "CostMatrix \<Rightarrow> int list \<Rightarrow> jsstring \<times> CostMatrix \<times> int list" where
  "pack m offs =
     (if length (costMap m) > 0 then (map fromCharCode (costMap m), m, offs)
      else (let (offs', cm) = pack_loop 0 (bits m) offs (costMap m)
            in (map fromCharCode cm, m\<lparr>costMap := cm\<rparr>, offs')))"

text \<open>The header loop of \<open>unpack\<close>: \<open>n\<close> units read from index 2 on.\<close>

definition header_codec :: "jsstring \<Rightarrow> int option \<Rightarrow> int option list" where
  "header_codec packed n =
     (case n of None \<Rightarrow> []
      | Some k \<Rightarrow> map (charCodeAt packed) [2 ..< nat (2 + k)])"

fun unpack_loop :: "int option list \<Rightarrow> jsstring \<Rightarrow> 8 word list \<Rightarrow> 8 word list" where
  "unpack_loop codec [] b = b"
| "unpack_loop codec (u # us) b =
     (let v = charCode u;
          sym = nat (v mod SPACER);
          cost = (if sym < length codec then codec ! sym else None)
      in unpack_loop codec us (typed_store b (v div SPACER) cost))"

text \<open>\<open>CostMatrix.unpack(packed)\<close>, reading \<open>OFFSETS\<close> when the string has no header.\<close>

definition unpack :: "jsstring \<Rightarrow> int list \<Rightarrow> CostMatrix" where
  "unpack packed offs =
     (let (codec, start) =
            (if packed \<noteq> [] \<and> packed ! 0 = TRIGGER
             then (let codec = header_codec packed
                                 (parseInt10 (if 1 < length packed then Some (packed ! 1) else None))
                   in (codec, 0 + length codec + 2))
             else (map Some offs, 0))
      in new_CostMatrix\<lparr>bits := unpack_loop codec (drop start packed) (bits new_CostMatrix)\<rparr>)"

section \<open>Navigator: position identifiers\<close>

record RoomPosition =
  pos_x :: int
  pos_y :: int
  roomName :: jsstring

definition positionToId :: "RoomPosition \<Rightarrow> jsstring" where
  "positionToId pos = [fromCharCode (pos_x pos + 192), fromCharCode (pos_y pos + 192)] @ roomName pos"

text \<open>
  \<open>positionFromId\<close> builds \<open>new RoomPosition(id.charCodeAt(0) - 192, id.charCodeAt(1) - 192,
  id.substring(2))\<close>; on an id of fewer than two units a coordinate is \<open>NaN\<close> and there is no
  position, which is \<open>None\<close> here.
\<close>

definition positionFromId :: "jsstring \<Rightarrow> RoomPosition option" where
  "positionFromId ident =
     (case (charCodeAt ident 0, charCodeAt ident 1) of
        (Some a, Some b) \<Rightarrow> Some \<lparr>pos_x = a - 192, pos_y = b - 192, roomName = drop 2 ident\<rparr>
      | _ \<Rightarrow> None)"

section \<open>The game world\<close>

text \<open>
  What the modules read from the engine in one tick: \<open>Game.time\<close>, the visible rooms
  \<open>Game.rooms\<close> with the results of \<open>room.find\<close>, the number of entries of
  \<open>Game.constructionSites\<close>, the terrain tables (\<open>new Room.Terrain(roomName).get(x, y)\<close>) and
  \<open>Game.map.getRoomLinearDistance\<close>.
\<close>

record Structure =
  structureType :: string
  struct_pos :: RoomPosition
  struct_my :: bool
  isPublic :: bool

record Creep =
  creep_name :: string
  creep_pos :: RoomPosition
  creep_my :: bool
  fatigue :: int
  spawning :: bool

text \<open>
  A visible room, as the results of its queries: \<open>room.find\<close> for structures, own construction
  sites and creeps, and \<open>lookForAt\<close> for the creeps and structures of a cell. A coordinate of
  \<open>lookForAt\<close> that is \<open>NaN\<close> is \<open>None\<close>.
\<close>

record Room =
  find_structures :: "Structure list"
  find_my_construction_sites :: "Structure list"
  find_creeps :: "Creep list"
  lookForAt_creeps :: "int option \<Rightarrow> int option \<Rightarrow> Creep list"
  lookForAt_structures :: "int option \<Rightarrow> int option \<Rightarrow> Structure list"

record Game =
  Game_time :: nat
  Game_rooms :: "jsstring \<rightharpoonup> Room"
  Game_constructionSites :: nat
  Room_Terrain :: "jsstring \<Rightarrow> int \<Rightarrow> int \<Rightarrow> int"
  getRoomLinearDistance :: "jsstring \<Rightarrow> jsstring \<Rightarrow> int"

definition STRUCTURE_ROAD :: string where "STRUCTURE_ROAD = ''road''"
definition STRUCTURE_RAMPART :: string where "STRUCTURE_RAMPART = ''rampart''"
definition STRUCTURE_CONTAINER :: string where "STRUCTURE_CONTAINER = ''container''"
definition TERRAIN_MASK_WALL :: int where "TERRAIN_MASK_WALL = 1"

text \<open>The engine's list of structure types that block movement.\<close>

definition OBSTACLE_OBJECT_TYPES :: "string list" where
  "OBSTACLE_OBJECT_TYPES =
     [''spawn'', ''creep'', ''powerCreep'', ''source'', ''mineral'', ''deposit'', ''controller'',
      ''constructedWall'', ''extension'', ''link'', ''storage'', ''tower'', ''observer'',
      ''powerSpawn'', ''powerBank'', ''lab'', ''terminal'', ''nuker'', ''factory'', ''invaderCore'']"

text \<open>The engine's \<open>CostMatrix\<close> methods \<open>get\<close>, \<open>set\<close> and \<open>clone\<close>.\<close>

definition matrix_get :: "CostMatrix \<Rightarrow> int \<Rightarrow> int \<Rightarrow> int option" where
  "matrix_get m x y =
     (let i = x * 50 + y
      in if 0 \<le> i \<and> i < int (length (bits m)) then Some (uint (bits m ! nat i)) else None)"

definition matrix_set :: "CostMatrix \<Rightarrow> int \<Rightarrow> int \<Rightarrow> int \<Rightarrow> CostMatrix" where
  "matrix_set m x y cost = m\<lparr>bits := typed_store (bits m) (x * 50 + y) (Some (min (max 0 cost) 255))\<rparr>"

definition clone :: "CostMatrix \<Rightarrow> CostMatrix" where
  "clone m = new_CostMatrix\<lparr>bits := bits m\<rparr>"

section \<open>Atlas: the module state\<close>

text \<open>
  The module-level variables. A \<open>CostMatrix\<close> is an object: the tables \<open>COSTS_ROOM\<close> and
  \<open>COSTS_CREEP\<close> hold references, so the state has a store of matrices and the tables hold
  addresses. \<open>new\<close> takes the next unused address. \<open>lastReset\<close> is \<open>Atlas.lastReset\<close>.
\<close>

type_synonym addr = nat

type_synonym terrain_memo = "jsstring \<rightharpoonup> (int \<Rightarrow> int \<Rightarrow> int)"

datatype error = TypeError

record Globals =
  PACKED_COSTS :: "jsstring \<rightharpoonup> jsstring"
  TERRAIN :: terrain_memo
  COSTS_ROOM :: "jsstring \<rightharpoonup> addr"
  COSTS_CREEP :: "jsstring \<rightharpoonup> addr"
  OFFSETS :: "int list"
  lastReset :: nat
  heap :: "addr \<Rightarrow> CostMatrix"
  next_addr :: addr

definition RESET_FREQUENCY :: nat where
  "RESET_FREQUENCY = 500"

definition alloc :: "CostMatrix \<Rightarrow> Globals \<Rightarrow> addr \<times> Globals" where
  "alloc m g = (next_addr g, g\<lparr>heap := (heap g)(next_addr g := m), next_addr := Suc (next_addr g)\<rparr>)"

text \<open>The state when the module is loaded in tick \<open>t\<close>.\<close>

definition module_load :: "nat \<Rightarrow> Globals" where
  "module_load t =
     \<lparr>PACKED_COSTS = Map.empty, TERRAIN = Map.empty, COSTS_ROOM = Map.empty, COSTS_CREEP = Map.empty,
      OFFSETS = [], lastReset = t, heap = (\<lambda>_. new_CostMatrix), next_addr = 0\<rparr>"

text \<open>Options of \<open>Atlas.addArea\<close>: one entry of \<open>opts.addArea\<close>.\<close>

record AreaGoal =
  area_objects :: "RoomPosition list"
  area_size :: int
  area_cost :: int
  area_replace :: "bool option"

text \<open>
  The options object. A field that may be absent is an option; \<open>'range' in opts\<close> is
  \<open>opt_range opts \<noteq> None\<close>; a numeric option is truthy when present and not 0. The result of a
  room callback is a matrix reference or \<open>false\<close> (\<open>None\<close>). The options \<open>stealth\<close>,
  \<open>serialize\<close> and \<open>visualizePathStyle\<close> are not modelled: the model is of calls that leave
  them unset.
\<close>

record Opts =
  opt_trackCreeps :: bool
  opt_refreshMatrix :: bool
  opt_addArea :: "AreaGoal list option"
  opt_range :: "int option"
  opt_avoid :: "jsstring list option"
  opt_anyRoom :: bool
  opt_roomCallback :: "(jsstring \<Rightarrow> Globals \<Rightarrow> error + (addr option \<times> Globals)) option"
  opt_plainCost :: "int option"
  opt_swampCost :: "int option"
  opt_flee :: bool
  opt_maxOps :: "int option"
  opt_maxRooms :: "int option"
  opt_maxCost :: "int option"
  opt_heuristicWeight :: "rat option"

section \<open>Atlas\<close>

text \<open>
  The functions that build a matrix touch two module variables only, \<open>OFFSETS\<close> (through
  \<open>matrix.update\<close>) and the memo table \<open>TERRAIN\<close> (through \<open>isWallAt\<close>); they take and return
  these.
\<close>

definition isWallAt :: "int \<Rightarrow> int \<Rightarrow> jsstring \<Rightarrow> Game \<Rightarrow> terrain_memo \<Rightarrow> bool \<times> terrain_memo" where
  "isWallAt x y rn G terr =
     (case terr rn of
        None \<Rightarrow> (let t = Room_Terrain G rn in (t x y = TERRAIN_MASK_WALL, terr(rn \<mapsto> t)))
      | Some t \<Rightarrow> (t x y = TERRAIN_MASK_WALL, terr))"

definition getWalkableArea ::
  "RoomPosition \<Rightarrow> int \<Rightarrow> Game \<Rightarrow> terrain_memo \<Rightarrow> (int \<times> int) list \<times> terrain_memo" where
  "getWalkableArea pos sz G terr =
     (let left = max 0 (pos_x pos - sz); right = min 49 (pos_x pos + sz);
          top = max 0 (pos_y pos - sz); bottom = min 49 (pos_y pos + sz)
      in fold (\<lambda>x tt.
           fold (\<lambda>y (tiles, terr1).
             (let (wall, terr2) = isWallAt x y (roomName pos) G terr1
              in if wall then (tiles, terr2) else (tiles @ [(x, y)], terr2)))
             [top .. bottom] tt)
           [left .. right] ([], terr))"

definition structure_cost :: "Structure \<Rightarrow> int" where
  "structure_cost obj =
     (if structureType obj = STRUCTURE_ROAD then 1
      else if structureType obj = STRUCTURE_RAMPART then (if struct_my obj \<or> isPublic obj then 0 else 255)
      else if structureType obj = STRUCTURE_CONTAINER then 5
      else 255)"

definition addStructures :: "Room \<Rightarrow> CostMatrix \<Rightarrow> Game \<Rightarrow> int list \<Rightarrow> CostMatrix \<times> int list" where
  "addStructures room matrix G offs =
     (let objects = find_structures room @
            (if Game_constructionSites G \<noteq> 0
             then filter (\<lambda>s. structureType s \<in> set OBSTACLE_OBJECT_TYPES) (find_my_construction_sites room)
             else [])
      in fold (\<lambda>obj (m, offs1).
           (let cost = structure_cost obj
            in case matrix_get m (pos_x (struct_pos obj)) (pos_y (struct_pos obj)) of
                 None \<Rightarrow> (m, offs1)
               | Some v \<Rightarrow> if cost > v
                           then update (pos_x (struct_pos obj)) (pos_y (struct_pos obj)) cost m offs1
                           else (m, offs1)))
           objects (matrix, offs))"

definition addArea ::
  "jsstring \<Rightarrow> CostMatrix \<Rightarrow> AreaGoal list \<Rightarrow> Game \<Rightarrow> int list \<Rightarrow> terrain_memo
     \<Rightarrow> CostMatrix \<times> int list \<times> terrain_memo" where
  "addArea ident matrix goals G offs terr =
     fold (\<lambda>goal (m, offs1, terr1).
       (let (grid, terr2) =
              fold (\<lambda>obj (grid, terr3).
                     (let (tiles, terr4) = getWalkableArea obj (area_size goal) G terr3
                      in (grid @ tiles, terr4)))
                   (area_objects goal) ([], terr1);
            threshold = (if area_replace goal = Some False then 1 else 255);
            (m2, offs2) =
              fold (\<lambda>(x, y) (m1, offs3).
                     (case matrix_get m1 x y of
                        None \<Rightarrow> (m1, offs3)
                      | Some v \<Rightarrow> if v < threshold then update x y (area_cost goal) m1 offs3
                                  else (m1, offs3)))
                   grid (m, offs1)
        in (m2, offs2, terr2)))
       goals (matrix, offs, terr)"

text \<open>
  \<open>Atlas.refresh\<close>. The matrix is built in place at its address; nothing reads that address
  before the function returns, so the store is written once, with the matrix as \<open>pack\<close>
  leaves it.
\<close>

definition refresh :: "jsstring \<Rightarrow> Opts \<Rightarrow> Game \<Rightarrow> Globals \<Rightarrow> Globals" where
  "refresh ident opts G g =
     (let (a, g1) = alloc new_CostMatrix g;
          g2 = g1\<lparr>COSTS_ROOM := (COSTS_ROOM g1)(ident \<mapsto> a)\<rparr>
      in case Game_rooms G ident of
           None \<Rightarrow> g2
         | Some room \<Rightarrow>
             (let (m1, offs1) = addStructures room (heap g2 a) G (OFFSETS g2);
                  (m2, offs2, terr2) =
                    (case opt_addArea opts of
                       None \<Rightarrow> (m1, offs1, TERRAIN g2)
                     | Some goals \<Rightarrow> addArea ident m1 goals G offs1 (TERRAIN g2));
                  (packed, m3, offs3) = pack m2 offs2
              in g2\<lparr>heap := (heap g2)(a := m3), OFFSETS := offs3, TERRAIN := terr2,
                     PACKED_COSTS := (PACKED_COSTS g2)(ident \<mapsto> packed)\<rparr>))"

text \<open>\<open>Atlas._addCreeps\<close>; the two lookups raise a TypeError on \<open>undefined\<close>.\<close>

definition addCreeps :: "jsstring \<Rightarrow> Game \<Rightarrow> Globals \<Rightarrow> error + (addr \<times> Globals)" where
  "addCreeps ident G g =
     (case COSTS_ROOM g ident of
        None \<Rightarrow> Inl TypeError
      | Some base \<Rightarrow>
          (case Game_rooms G ident of
             None \<Rightarrow> Inl TypeError
           | Some room \<Rightarrow>
               (let matrix = fold (\<lambda>c m. matrix_set m (pos_x (creep_pos c)) (pos_y (creep_pos c)) 255)
                                  (find_creeps room) (clone (heap g base));
                    (a, g1) = alloc matrix g
                in Inr (a, g1\<lparr>COSTS_CREEP := (COSTS_CREEP g1)(ident \<mapsto> a)\<rparr>))))"

text \<open>\<open>Atlas._reset\<close>.\<close>

definition reset :: "Game \<Rightarrow> Globals \<Rightarrow> Globals" where
  "reset G g =
     (let g1 = (if Game_time G mod RESET_FREQUENCY = 0
                then g\<lparr>PACKED_COSTS := (\<lambda>rn. if Game_rooms G rn \<noteq> None then None else PACKED_COSTS g rn)\<rparr>
                else g)
      in g1\<lparr>COSTS_ROOM := (\<lambda>rn. if COSTS_ROOM g1 rn \<noteq> None then None else COSTS_ROOM g1 rn),
             COSTS_CREEP := (\<lambda>rn. if COSTS_ROOM g1 rn \<noteq> None then None else COSTS_CREEP g1 rn),
             lastReset := Game_time G\<rparr>)"

text \<open>
  \<open>Atlas.getCosts\<close>; the result is the reference returned. \<open>CostMatrix.unpack(undefined)\<close>
  raises a TypeError.
\<close>

definition getCosts :: "jsstring \<Rightarrow> Opts \<Rightarrow> Game \<Rightarrow> Globals \<Rightarrow> error + (addr \<times> Globals)" where
  "getCosts ident opts G g =
     (let g1 = (if lastReset g < Game_time G then reset G g else g);
          g2 = (if PACKED_COSTS g1 ident = None \<or> opt_refreshMatrix opts then refresh ident opts G g1 else g1)
      in case (case COSTS_ROOM g2 ident of
                 Some base \<Rightarrow> Inr (base, g2)
               | None \<Rightarrow>
                   (case PACKED_COSTS g2 ident of
                      None \<Rightarrow> Inl TypeError
                    | Some packed \<Rightarrow>
                        (let (a, g3) = alloc (unpack packed (OFFSETS g2)) g2
                         in Inr (a, g3\<lparr>COSTS_ROOM := (COSTS_ROOM g3)(ident \<mapsto> a)\<rparr>)))) of
           Inl e \<Rightarrow> Inl e
         | Inr (base, g4) \<Rightarrow>
             if \<not> (opt_trackCreeps opts \<and> Game_rooms G ident \<noteq> None) then Inr (base, g4)
             else (case COSTS_CREEP g4 ident of
                     Some a \<Rightarrow> Inr (a, g4)
                   | None \<Rightarrow> addCreeps ident G g4))"

section \<open>The engine's functions\<close>

text \<open>
  \<open>PathFinder.search\<close> takes a start, a goal with a range, and options, among them the room
  callback; it may call the callback, which changes the module state, and gives a path and a
  completeness flag. \<open>RoomPosition.getDirectionTo\<close> gives a direction constant or
  \<open>undefined\<close>; its argument is \<open>None\<close> for a position whose coordinates are \<open>NaN\<close>.
\<close>

record SearchGoal =
  goal_range :: int
  goal_pos :: RoomPosition

record SearchOpts =
  so_roomCallback :: "jsstring \<Rightarrow> Globals \<Rightarrow> error + (addr option \<times> Globals)"
  so_plainCost :: int
  so_swampCost :: int
  so_flee :: bool
  so_maxOps :: int
  so_maxRooms :: int
  so_maxCost :: "int option"
  so_heuristicWeight :: rat

record SearchResult =
  sr_path :: "RoomPosition list"
  sr_incomplete :: bool

record Engine =
  PathFinder_search ::
    "RoomPosition \<Rightarrow> SearchGoal \<Rightarrow> SearchOpts \<Rightarrow> Game \<Rightarrow> Globals \<Rightarrow> error + (SearchResult \<times> Globals)"
  getDirectionTo :: "RoomPosition \<Rightarrow> RoomPosition option \<Rightarrow> int option"

text \<open>
  What the modules do to the world, in order: the calls of the search primitive (with the goal
  and the \<open>maxRooms\<close> passed), \<open>console.log\<close>, \<open>creep.say\<close>, \<open>other.move\<close> and the assignment to
  \<open>other.swapScheduled\<close>.
\<close>

datatype event =
    EvSearch RoomPosition SearchGoal int
  | EvLogIncomplete RoomPosition RoomPosition
  | EvSay string int
  | EvMove string "int option"
  | EvSwapScheduled string nat

section \<open>More JavaScript\<close>

text \<open>\<open>a || d\<close> for a numeric option: the option when it is present and not 0.\<close>

definition truthy :: "int option \<Rightarrow> bool" where
  "truthy v = (case v of None \<Rightarrow> False | Some n \<Rightarrow> n \<noteq> 0)"

definition or_default :: "int option \<Rightarrow> int \<Rightarrow> int" where
  "or_default v d = (case v of None \<Rightarrow> d | Some n \<Rightarrow> if n \<noteq> 0 then n else d)"

text \<open>
  The unary \<open>+\<close> on a string of one unit, or on \<open>undefined\<close>: a decimal digit gives its value,
  a white space or line terminator gives 0, anything else \<open>NaN\<close>.
\<close>

definition whitespace_units :: "int list" where
  "whitespace_units =
     [9, 10, 11, 12, 13, 32, 160, 5760, 8192, 8193, 8194, 8195, 8196, 8197, 8198, 8199, 8200, 8201,
      8202, 8232, 8233, 8239, 8287, 12288, 65279]"

definition toNumber :: "16 word option \<Rightarrow> int option" where
  "toNumber c =
     (case c of
        None \<Rightarrow> None
      | Some u \<Rightarrow> if 48 \<le> charCode u \<and> charCode u \<le> 57 then Some (charCode u - 48)
                  else if charCode u \<in> set whitespace_units then Some 0
                  else None)"

text \<open>\<open>s[0]\<close> of a string.\<close>

definition first_unit :: "jsstring \<Rightarrow> 16 word option" where
  "first_unit s = (case s of [] \<Rightarrow> None | u # _ \<Rightarrow> Some u)"

text \<open>\<open>xs[i]\<close> of an array of numbers, for an index that may be \<open>NaN\<close>.\<close>

definition array_at :: "int list \<Rightarrow> int option \<Rightarrow> int option" where
  "array_at xs i =
     (case i of
        None \<Rightarrow> None
      | Some k \<Rightarrow> if 0 \<le> k \<and> k < int (length xs) then Some (xs ! nat k) else None)"

text \<open>The decimal digits of a natural number, and a number or \<open>undefined\<close> appended to a string.\<close>

function decimal :: "nat \<Rightarrow> jsstring" where
  "decimal n = (if n < 10 then [fromCharCode (48 + int n)]
                else decimal (n div 10) @ [fromCharCode (48 + int (n mod 10))])"
  by pat_completeness auto
termination
  by (relation "measure id") auto

declare decimal.simps [simp del]

definition toString :: "int option \<Rightarrow> jsstring" where
  "toString v =
     (case v of
        None \<Rightarrow> map fromCharCode [117, 110, 100, 101, 102, 105, 110, 101, 100]
      | Some n \<Rightarrow> if n < 0 then fromCharCode 45 # decimal (nat (- n)) else decimal (nat n))"

section \<open>Cartographer\<close>

text \<open>
  \<open>Cartographer.getRange\<close>; the memo table of \<open>isWallAt\<close> is read and returned. \<open>goal.lookFor\<close>
  is \<open>lookForAt\<close> of the goal's room at the goal's cell. This is the function of the later
  version of the module, which reads the option \<open>range\<close> itself; the earlier version under
  \<open>Modules/Cartographer\<close> reads that option in \<open>callPathFinder\<close> and leaves ramparts out of the
  last test as well.
\<close>

definition getRange :: "RoomPosition \<Rightarrow> Opts \<Rightarrow> Game \<Rightarrow> terrain_memo \<Rightarrow> int \<times> terrain_memo" where
  "getRange goal opts G terr =
     (case opt_range opts of
        Some r \<Rightarrow> (r, terr)
      | None \<Rightarrow>
          (let (wall, terr1) = isWallAt (pos_x goal) (pos_y goal) (roomName goal) G terr
           in if wall then (1, terr1)
              else (case Game_rooms G (roomName goal) of
                      None \<Rightarrow> (0, terr1)
                    | Some room \<Rightarrow>
                        if opt_trackCreeps opts \<and>
                           lookForAt_creeps room (Some (pos_x goal)) (Some (pos_y goal)) \<noteq> []
                        then (1, terr1)
                        else (case find (\<lambda>s. structureType s \<noteq> STRUCTURE_ROAD \<and>
                                               structureType s \<noteq> STRUCTURE_CONTAINER)
                                        (lookForAt_structures room (Some (pos_x goal)) (Some (pos_y goal))) of
                                Some obstacle \<Rightarrow> (1, terr1)
                              | None \<Rightarrow> (0, terr1)))))"

text \<open>The room callback that \<open>callPathFinder\<close> passes when \<open>opts.roomCallback\<close> is not given.\<close>

definition default_roomCallback ::
  "Opts \<Rightarrow> jsstring list option \<Rightarrow> Game \<Rightarrow> jsstring \<Rightarrow> Globals \<Rightarrow> error + (addr option \<times> Globals)" where
  "default_roomCallback opts route G rn g =
     (if (case route of None \<Rightarrow> False | Some r \<Rightarrow> rn \<notin> set r) then Inr (None, g)
      else if (case opt_avoid opts of None \<Rightarrow> False | Some av \<Rightarrow> rn \<in> set av) then Inr (None, g)
      else (case getCosts rn opts G g of
              Inl e \<Rightarrow> Inl e
            | Inr (a, g1) \<Rightarrow> Inr (Some a, g1)))"

text \<open>The options that \<open>callPathFinder\<close> passes to the search primitive.\<close>

definition search_opts :: "Opts \<Rightarrow> jsstring list option \<Rightarrow> Game \<Rightarrow> SearchOpts" where
  "search_opts opts route G =
     \<lparr>so_roomCallback = (case opt_roomCallback opts of
                           Some cb \<Rightarrow> cb
                         | None \<Rightarrow> default_roomCallback opts route G),
      so_plainCost = or_default (opt_plainCost opts) 3,
      so_swampCost = or_default (opt_swampCost opts) 7,
      so_flee = opt_flee opts,
      so_maxOps = or_default (opt_maxOps opts) 20000,
      so_maxRooms = or_default (opt_maxRooms opts)
                      (case route of None \<Rightarrow> 16 | Some r \<Rightarrow> int (length r)),
      so_maxCost = (if truthy (opt_maxCost opts) then opt_maxCost opts else None),
      so_heuristicWeight = (case opt_heuristicWeight opts of
                              None \<Rightarrow> 6 / 5
                            | Some w \<Rightarrow> if w \<noteq> 0 then w else 6 / 5)\<rparr>"

text \<open>\<open>Cartographer.callPathFinder\<close>, on the module state and the list of events.\<close>

definition callPathFinder ::
  "Engine \<Rightarrow> RoomPosition \<Rightarrow> RoomPosition \<Rightarrow> Opts \<Rightarrow> jsstring list option \<Rightarrow> Game
     \<Rightarrow> Globals \<times> event list \<Rightarrow> error + (SearchResult \<times> Globals \<times> event list)" where
  "callPathFinder E start end_pos opts route G st =
     (let (g, tr) = st;
          (r, terr1) = getRange end_pos opts G (TERRAIN g);
          goal = \<lparr>goal_range = r, goal_pos = end_pos\<rparr>;
          sopts = search_opts opts route G
      in case PathFinder_search E start goal sopts G (g\<lparr>TERRAIN := terr1\<rparr>) of
           Inl e \<Rightarrow> Inl e
         | Inr (res, g1) \<Rightarrow> Inr (res, g1, tr @ [EvSearch start goal (so_maxRooms sopts)]))"

text \<open>The loop of \<open>Cartographer.serializePath\<close>, with the string so far and the position before.\<close>

fun serialize_loop :: "Engine \<Rightarrow> RoomPosition list \<Rightarrow> jsstring \<Rightarrow> RoomPosition \<Rightarrow> jsstring" where
  "serialize_loop E [] result current = result"
| "serialize_loop E (position # rest) result current =
     serialize_loop E rest
       (if roomName position = roomName current
        then result @ toString (getDirectionTo E current (Some position))
        else result)
       position"

definition serializePath :: "Engine \<Rightarrow> RoomPosition list \<Rightarrow> RoomPosition \<Rightarrow> Opts \<Rightarrow> jsstring" where
  "serializePath E path start opts = serialize_loop E path [] start"

text \<open>
  \<open>this.findRoute(r1, r2, opts)\<close> in \<open>findPath\<close>. The method is static, \<open>this\<close> is the class
  \<open>Cartographer\<close>, and no version of the class has a property \<open>findRoute\<close>: the route function
  it defines is \<open>getRoute\<close>, which nothing calls. The property is \<open>undefined\<close> and the call raises
  a TypeError.
\<close>

definition this_findRoute :: "jsstring \<Rightarrow> jsstring \<Rightarrow> Opts \<Rightarrow> error + jsstring list" where
  "this_findRoute r1 r2 opts = Inl TypeError"

text \<open>\<open>Cartographer.findPath\<close>.\<close>

definition findPath ::
  "Engine \<Rightarrow> RoomPosition \<Rightarrow> RoomPosition \<Rightarrow> Opts \<Rightarrow> Game \<Rightarrow> Globals \<times> event list
     \<Rightarrow> error + (jsstring \<times> Globals \<times> event list)" where
  "findPath E start goal opts G st =
     (let (g, tr) = st;
          r1 = roomName start; r2 = roomName goal;
          distance = getRoomLinearDistance G r1 r2
      in case (if distance > 2
               then (case this_findRoute r1 r2 opts of Inl e \<Rightarrow> Inl e | Inr r \<Rightarrow> Inr (Some r))
               else Inr None) of
           Inl e \<Rightarrow> Inl e
         | Inr route \<Rightarrow>
             (case callPathFinder E start goal opts route G (g, tr) of
                Inl e \<Rightarrow> Inl e
              | Inr (result, g1, tr2) \<Rightarrow>
                  (case (if sr_incomplete result \<and> distance \<le> 2
                         then (case this_findRoute r1 r2 opts of
                                 Inl e \<Rightarrow> Inl e
                               | Inr r \<Rightarrow> callPathFinder E start goal opts (Some r) G (g1, tr2))
                         else Inr (result, g1, tr2)) of
                     Inl e \<Rightarrow> Inl e
                   | Inr (result2, g2, tr3) \<Rightarrow>
                       Inr (serializePath E (sr_path result2) start opts, g2,
                            if sr_incomplete result2 then tr3 @ [EvLogIncomplete start goal] else tr3))))"

section \<open>Navigator\<close>

text \<open>
  The object \<open>creep.memory._nav\<close> once a path has been stored in it. Before that the object is
  absent or has no \<open>path\<close>, and \<open>getNextMove\<close> overwrites every field: this is \<open>None\<close>.
\<close>

record Nav =
  nav_path :: jsstring
  nav_target :: jsstring
  nav_last :: jsstring
  nav_stuck :: int

definition TOP :: int where "TOP = 1"
definition TOP_RIGHT :: int where "TOP_RIGHT = 2"
definition RIGHT :: int where "RIGHT = 3"
definition BOTTOM_RIGHT :: int where "BOTTOM_RIGHT = 4"
definition BOTTOM :: int where "BOTTOM = 5"
definition BOTTOM_LEFT :: int where "BOTTOM_LEFT = 6"
definition LEFT :: int where "LEFT = 7"
definition TOP_LEFT :: int where "TOP_LEFT = 8"

definition COMPLIMENTS :: "int list" where
  "COMPLIMENTS = [BOTTOM, BOTTOM_LEFT, LEFT, TOP_LEFT, TOP, TOP_RIGHT, RIGHT, BOTTOM_RIGHT]"

text \<open>\<open>n - 1\<close> and \<open>a + b\<close> on numbers that may be \<open>NaN\<close>.\<close>

definition minus_one :: "int option \<Rightarrow> int option" where
  "minus_one v = (case v of None \<Rightarrow> None | Some n \<Rightarrow> Some (n - 1))"

definition plus_int :: "int option \<Rightarrow> int \<Rightarrow> int option" where
  "plus_int v b = (case v of None \<Rightarrow> None | Some a \<Rightarrow> Some (a + b))"

text \<open>
  \<open>Navigator.isAtExpected\<close>; the result is the answer, the cache with the new stall counter,
  and the events with what the creep said.
\<close>

definition isAtExpected ::
  "Engine \<Rightarrow> Creep \<Rightarrow> Nav \<Rightarrow> event list \<Rightarrow> bool \<times> Nav \<times> event list" where
  "isAtExpected E creep cache tr =
     (let p1 = creep_pos creep;
          p2 = positionFromId (nav_last cache);
          isExit = (pos_x p1 = 0 \<or> map_option pos_x p2 = Some 0 \<or>
                    pos_y p1 = 49 \<or> map_option pos_y p2 = Some 49)
      in if isExit \<or> (Some (pos_x p1) = map_option pos_x p2 \<and> Some (pos_y p1) = map_option pos_y p2)
         then (let stuck = nav_stuck cache + 1
               in (False, cache\<lparr>nav_stuck := stuck\<rparr>,
                   if stuck > 1 then tr @ [EvSay (creep_name creep) stuck] else tr))
         else (array_at COMPLIMENTS (minus_one (toNumber (first_unit (nav_path cache)))) =
                 getDirectionTo E p1 p2,
               cache\<lparr>nav_stuck := 0\<rparr>, tr))"

text \<open>
  \<open>Navigator.moveObstruction\<close>; \<open>creep.room\<close> is the visible room of the creep's position. The
  result is the answer, the options (\<open>trackCreeps\<close> may be set) and the events.
\<close>

definition offsetsX :: "int list" where "offsetsX = [0, 1, 1, 1, 0, -1, -1, -1]"
definition offsetsY :: "int list" where "offsetsY = [-1, -1, 0, 1, 1, 1, 0, -1]"

definition moveObstruction ::
  "Engine \<Rightarrow> Creep \<Rightarrow> Nav \<Rightarrow> Opts \<Rightarrow> Game \<Rightarrow> event list \<Rightarrow> error + (bool \<times> Opts \<times> event list)" where
  "moveObstruction E creep cache opts G tr =
     (let direction = toNumber (first_unit (nav_path cache));
          dx = plus_int (array_at offsetsX (minus_one direction)) (pos_x (creep_pos creep));
          dy = plus_int (array_at offsetsY (minus_one direction)) (pos_y (creep_pos creep))
      in if (case dx of None \<Rightarrow> False | Some v \<Rightarrow> v < 0 \<or> v > 49) \<or>
            (case dy of None \<Rightarrow> False | Some v \<Rightarrow> v < 0 \<or> v > 49)
         then Inr (False, opts, tr)
         else (case Game_rooms G (roomName (creep_pos creep)) of
                 None \<Rightarrow> Inl TypeError
               | Some room \<Rightarrow>
                   (case lookForAt_creeps room dx dy of
                      [] \<Rightarrow> Inr (True, opts\<lparr>opt_trackCreeps := True\<rparr>, tr)
                    | other # _ \<Rightarrow>
                        Inr (True, opts,
                             if creep_my other \<and> \<not> (fatigue other \<noteq> 0 \<or> spawning other)
                             then tr @ [EvMove (creep_name other)
                                          (getDirectionTo E (creep_pos other) (Some (creep_pos creep))),
                                        EvSwapScheduled (creep_name other) (Game_time G)]
                             else tr))))"

text \<open>\<open>Navigator.getNewPath\<close>; the result is the path, the cache, the module state, the events.\<close>

definition getNewPath ::
  "Engine \<Rightarrow> Creep \<Rightarrow> RoomPosition \<Rightarrow> jsstring \<Rightarrow> Opts \<Rightarrow> Game \<Rightarrow> Globals \<times> event list
     \<Rightarrow> error + (Nav \<times> Globals \<times> event list)" where
  "getNewPath E creep goal last_id opts G st =
     (case findPath E (creep_pos creep) goal opts G st of
        Inl e \<Rightarrow> Inl e
      | Inr (path, g1, tr1) \<Rightarrow>
          Inr (\<lparr>nav_path = path, nav_target = positionToId goal, nav_last = last_id, nav_stuck = 0\<rparr>,
               g1, tr1))"

text \<open>
  \<open>Navigator.getNextMove\<close>. The argument \<open>rnd\<close> is the value that \<open>_.random(100)\<close> gives when
  it is called. The result is the number returned (\<open>None\<close> for \<open>NaN\<close>) with the cache, the
  options, the module state and the events after the call.
\<close>

definition getNextMove ::
  "Engine \<Rightarrow> Creep \<Rightarrow> RoomPosition \<Rightarrow> Opts \<Rightarrow> int \<Rightarrow> Game \<Rightarrow> Nav option \<times> Globals \<times> event list
     \<Rightarrow> error + (int option \<times> Nav \<times> Opts \<times> Globals \<times> event list)" where
  "getNextMove E creep goal opts rnd G st =
     (let (nav, g, tr) = st;
          last_id = positionToId (creep_pos creep);
          replan = (\<lambda>opts1 tr1.
                     case getNewPath E creep goal last_id opts1 G (g, tr1) of
                       Inl e \<Rightarrow> Inl e
                     | Inr (cache1, g1, tr2) \<Rightarrow>
                         Inr (toNumber (first_unit (nav_path cache1)), cache1, opts1, g1, tr2));
          keep = (\<lambda>cache1 opts1 tr1.
                    Inr (toNumber (first_unit (nav_path cache1)), cache1\<lparr>nav_last := last_id\<rparr>,
                         opts1, g, tr1))
      in case nav of
           None \<Rightarrow> replan opts tr
         | Some cache \<Rightarrow>
             if \<not> (nav_path cache \<noteq> [] \<and> nav_target cache = positionToId goal) then replan opts tr
             else (let (moved, cache1, tr1) = isAtExpected E creep cache tr
                   in if moved then keep (cache1\<lparr>nav_path := drop 1 (nav_path cache1)\<rparr>) opts tr1
                      else if nav_stuck cache1 > 2 \<and> 50 > rnd - nav_stuck cache1
                      then (if opt_trackCreeps opts then replan opts tr1
                            else (case moveObstruction E creep cache1 opts G tr1 of
                                    Inl e \<Rightarrow> Inl e
                                  | Inr (pathError, opts1, tr2) \<Rightarrow>
                                      if pathError then replan opts1 tr2 else keep cache1 opts1 tr2))
                      else keep cache1 opts tr1))"

section \<open>Auxiliary definitions\<close>

text \<open>
  The cost map that the loop of \<open>pack\<close> appends for the cells \<open>cs\<close> from index \<open>i\<close> on, read
  off the symbol table \<open>offs\<close> that the loop ends with.
\<close>

fun entries :: "nat \<Rightarrow> 8 word list \<Rightarrow> int list \<Rightarrow> int list" where
  "entries i [] offs = []"
| "entries i (c # cs) offs =
     (if c = 0 then [] else [int i * SPACER + indexOf offs (uint c)]) @ entries (Suc i) cs offs"

text \<open>Example grids: the costs 1 to 22 in the cells 0 to 21, and one cost in cell 0.\<close>

definition costs_1_22 :: "int list" where
  "costs_1_22 = [1, 2, 3, 4, 5, 6, 7, 8, 9, 10, 11, 12, 13, 14, 15, 16, 17, 18, 19, 20, 21, 22]"

definition grid22 :: CostMatrix where
  "grid22 = \<lparr>bits = map word_of_int costs_1_22 @ replicate 2478 0, costMap = []\<rparr>"

definition grid_one :: "8 word \<Rightarrow> CostMatrix" where
  "grid_one c = \<lparr>bits = c # replicate 2499 0, costMap = []\<rparr>"

text \<open>A matrix filled with \<open>update\<close> (cost 5 at cell 0) and then with \<open>set\<close> (cost 7 at cell 1).\<close>

definition grid_mixed :: CostMatrix where
  "grid_mixed = matrix_set (fst (update 0 0 5 new_CostMatrix [])) 0 1 7"

text \<open>
  Matrices filled with \<open>update\<close> only: the cost 1 at (10, 10), and the cost 300 at (0, 0).
\<close>

definition grid_road :: CostMatrix where
  "grid_road = fst (update 10 10 1 new_CostMatrix [])"

definition grid_clamped :: CostMatrix where
  "grid_clamped = fst (update 0 0 300 new_CostMatrix [])"

text \<open>
  The matrices whose cost map records every cell that has been written, relative to the symbol
  table: a new matrix; such a matrix after \<open>update\<close> at a cell of the room with a byte cost; the
  matrix that \<open>pack\<close> leaves when it has filled an empty cost map from the cells. The table may
  have grown since.
\<close>

inductive costMap_complete :: "CostMatrix \<Rightarrow> int list \<Rightarrow> bool" where
  fresh: "costMap_complete new_CostMatrix offs"
| updated: "\<lbrakk>costMap_complete m offs; 0 \<le> x; x \<le> 49; 0 \<le> y; y \<le> 49; 0 \<le> cost; cost \<le> 255;
             update x y cost m offs = (m', offs')\<rbrakk> \<Longrightarrow> costMap_complete m' offs'"
| packed: "\<lbrakk>length (bits m) = 2500; costMap m = []; pack m offs = (p, m', offs')\<rbrakk>
             \<Longrightarrow> costMap_complete m' offs'"
| grown: "costMap_complete m offs \<Longrightarrow> costMap_complete m (offs @ ext)"

text \<open>
  An invariant of the module state: every reference in the two tables has been allocated, and
  no overlay is also a base grid. It holds when the module is loaded and every call of
  \<open>getCosts\<close> keeps it.
\<close>

definition wf_tables :: "Globals \<Rightarrow> bool" where
  "wf_tables g \<longleftrightarrow>
     (\<forall>rn a. COSTS_ROOM g rn = Some a \<longrightarrow> a < next_addr g) \<and>
     (\<forall>rn a. COSTS_CREEP g rn = Some a \<longrightarrow> a < next_addr g) \<and>
     (\<forall>rn rn' a. COSTS_ROOM g rn = Some a \<longrightarrow> COSTS_CREEP g rn' \<noteq> Some a)"

text \<open>
  An example world: the room W1N1 with a road at (10, 10) and a creep at (10, 11), visible or
  not, and the state after the first \<open>getCosts\<close> for it in tick 1.
\<close>

definition roomA :: jsstring where
  "roomA = map fromCharCode [87, 49, 78, 49]"

definition road_10_10 :: Structure where
  "road_10_10 = \<lparr>structureType = STRUCTURE_ROAD, struct_pos = \<lparr>pos_x = 10, pos_y = 10, roomName = roomA\<rparr>,
                  struct_my = False, isPublic = False\<rparr>"

definition creep_10_11 :: Creep where
  "creep_10_11 = \<lparr>creep_name = ''other'', creep_pos = \<lparr>pos_x = 10, pos_y = 11, roomName = roomA\<rparr>,
                   creep_my = True, fatigue = 0, spawning = False\<rparr>"

definition room1 :: Room where
  "room1 = \<lparr>find_structures = [road_10_10], find_my_construction_sites = [], find_creeps = [creep_10_11],
             lookForAt_creeps = (\<lambda>x y. if x = Some 10 \<and> y = Some 11 then [creep_10_11] else []),
             lookForAt_structures = (\<lambda>x y. if x = Some 10 \<and> y = Some 10 then [road_10_10] else [])\<rparr>"

definition world_visible :: "nat \<Rightarrow> Game" where
  "world_visible t = \<lparr>Game_time = t, Game_rooms = [roomA \<mapsto> room1], Game_constructionSites = 0,
                       Room_Terrain = (\<lambda>rn x y. 0), getRoomLinearDistance = (\<lambda>r1 r2. 0)\<rparr>"

definition world_hidden :: "nat \<Rightarrow> Game" where
  "world_hidden t = \<lparr>Game_time = t, Game_rooms = Map.empty, Game_constructionSites = 0,
                      Room_Terrain = (\<lambda>rn x y. 0), getRoomLinearDistance = (\<lambda>r1 r2. 0)\<rparr>"

definition opts0 :: Opts where
  "opts0 = \<lparr>opt_trackCreeps = False, opt_refreshMatrix = False, opt_addArea = None, opt_range = None,
            opt_avoid = None, opt_anyRoom = False, opt_roomCallback = None, opt_plainCost = None,
            opt_swampCost = None, opt_flee = False, opt_maxOps = None, opt_maxRooms = None,
            opt_maxCost = None, opt_heuristicWeight = None\<rparr>"

definition tick1_state :: Globals where
  "tick1_state =
     \<lparr>PACKED_COSTS = [roomA \<mapsto> [fromCharCode 11220]], TERRAIN = Map.empty,
      COSTS_ROOM = [roomA \<mapsto> 0], COSTS_CREEP = Map.empty, OFFSETS = [1], lastReset = 1,
      heap = (\<lambda>_. new_CostMatrix)(0 := \<lparr>bits = (replicate 2500 0)[510 := 1], costMap = [11220]\<rparr>),
      next_addr = 1\<rparr>"

text \<open>
  The goal tolerance as the specification words it: the explicit option; else 1 on a terrain
  wall; else 0 in a region that is not observable; else 1 if agents are tracked and one
  occupies the goal; else 1 if a structure that is not passable occupies the goal; else 0. A
  structure is not passable when the cost grid gives it the cost 255.
\<close>

definition non_passable :: "Structure \<Rightarrow> bool" where
  "non_passable s \<longleftrightarrow> structure_cost s = 255"

definition goalTolerance_spec :: "RoomPosition \<Rightarrow> Opts \<Rightarrow> Game \<Rightarrow> int" where
  "goalTolerance_spec goal opts G =
     (case opt_range opts of
        Some r \<Rightarrow> r
      | None \<Rightarrow>
          if Room_Terrain G (roomName goal) (pos_x goal) (pos_y goal) = TERRAIN_MASK_WALL then 1
          else (case Game_rooms G (roomName goal) of
                  None \<Rightarrow> 0
                | Some room \<Rightarrow>
                    if opt_trackCreeps opts \<and>
                       lookForAt_creeps room (Some (pos_x goal)) (Some (pos_y goal)) \<noteq> [] then 1
                    else if \<exists>s \<in> set (lookForAt_structures room (Some (pos_x goal)) (Some (pos_y goal))).
                              non_passable s then 1
                    else 0))"

text \<open>The same rules with the last test as the code has it: a structure other than a road or a container.\<close>

definition goalTolerance_rules :: "RoomPosition \<Rightarrow> Opts \<Rightarrow> Game \<Rightarrow> int" where
  "goalTolerance_rules goal opts G =
     (case opt_range opts of
        Some r \<Rightarrow> r
      | None \<Rightarrow>
          if Room_Terrain G (roomName goal) (pos_x goal) (pos_y goal) = TERRAIN_MASK_WALL then 1
          else (case Game_rooms G (roomName goal) of
                  None \<Rightarrow> 0
                | Some room \<Rightarrow>
                    if opt_trackCreeps opts \<and>
                       lookForAt_creeps room (Some (pos_x goal)) (Some (pos_y goal)) \<noteq> [] then 1
                    else if \<exists>s \<in> set (lookForAt_structures room (Some (pos_x goal)) (Some (pos_y goal))).
                              structureType s \<noteq> STRUCTURE_ROAD \<and> structureType s \<noteq> STRUCTURE_CONTAINER
                         then 1
                    else 0))"

text \<open>The memo table of \<open>isWallAt\<close> holds terrain tables of this world only.\<close>

definition memo_consistent :: "Game \<Rightarrow> terrain_memo \<Rightarrow> bool" where
  "memo_consistent G terr \<longleftrightarrow> (\<forall>rn t. terr rn = Some t \<longrightarrow> t = Room_Terrain G rn)"



definition pos_A :: "int \<Rightarrow> int \<Rightarrow> RoomPosition" where
  "pos_A x y = \<lparr>pos_x = x, pos_y = y, roomName = roomA\<rparr>"

definition roomB :: jsstring where
  "roomB = map fromCharCode [87, 54, 78, 49]"

text \<open>
  Example engines. \<open>engine_step\<close>: the search finds the one-step path to (11, 10) of W1N1, the
  direction is always \<open>RIGHT\<close>. \<open>engine_nopath\<close>: the search finds no path (an empty, incomplete
  result). \<open>engine_arrived\<close>: the search gives the empty path as a complete result, as for a start
  within the range of the goal; directions follow the game's rule.
\<close>

definition engine_step :: Engine where
  "engine_step =
     \<lparr>PathFinder_search = (\<lambda>start goal sopts G g. Inr (\<lparr>sr_path = [pos_A 11 10], sr_incomplete = False\<rparr>, g)),
      getDirectionTo = (\<lambda>p q. Some RIGHT)\<rparr>"

definition engine_nopath :: Engine where
  "engine_nopath =
     \<lparr>PathFinder_search = (\<lambda>start goal sopts G g. Inr (\<lparr>sr_path = [], sr_incomplete = True\<rparr>, g)),
      getDirectionTo = (\<lambda>p q. Some RIGHT)\<rparr>"


definition own_rampart :: Structure where
  "own_rampart = \<lparr>structureType = STRUCTURE_RAMPART, struct_pos = pos_A 10 10, struct_my = True, isPublic = False\<rparr>"

definition room_rampart :: Room where
  "room_rampart = \<lparr>find_structures = [own_rampart], find_my_construction_sites = [], find_creeps = [],
                    lookForAt_creeps = (\<lambda>x y. []),
                    lookForAt_structures = (\<lambda>x y. if x = Some 10 \<and> y = Some 10 then [own_rampart] else [])\<rparr>"

definition world_rampart :: Game where
  "world_rampart = \<lparr>Game_time = 1, Game_rooms = [roomA \<mapsto> room_rampart], Game_constructionSites = 0,
                     Room_Terrain = (\<lambda>rn x y. 0), getRoomLinearDistance = (\<lambda>r1 r2. 0)\<rparr>"

text \<open>A world in which W1N1 and W6N1 are five rooms apart.\<close>

definition world_far :: Game where
  "world_far = \<lparr>Game_time = 1, Game_rooms = [roomA \<mapsto> room1], Game_constructionSites = 0,
                 Room_Terrain = (\<lambda>rn x y. 0),
                 getRoomLinearDistance = (\<lambda>r1 r2. if r1 = r2 then 0 else 5)\<rparr>"

definition own_creep :: Creep where
  "own_creep = \<lparr>creep_name = ''walker'', creep_pos = pos_A 10 10, creep_my = True, fatigue = 0,
                 spawning = False\<rparr>"

text \<open>
  The cache of the creep \<open>walker\<close> at (10, 10) with the goal (20, 20) of its room, the path "3",
  its own position as the last one recorded, and a given stall counter.
\<close>

definition nav_stalled :: "int \<Rightarrow> Nav" where
  "nav_stalled k = \<lparr>nav_path = [fromCharCode 51], nav_target = positionToId (pos_A 20 20),
                    nav_last = positionToId (pos_A 10 10), nav_stuck = k\<rparr>"

definition pos_B :: "int \<Rightarrow> int \<Rightarrow> RoomPosition" where
  "pos_B x y = \<lparr>pos_x = x, pos_y = y, roomName = roomB\<rparr>"

section \<open>Properties\<close>

subsection \<open>Position identifiers\<close>

lemma charCode_fromCharCode:
  assumes "0 \<le> n" "n < 65536"
  shows "charCode (fromCharCode n) = n"
  using assms by (simp add: charCode_def fromCharCode_def uint_word_of_int take_bit_int_eq_self)

lemma position_id_roundtrip:
  assumes "0 \<le> pos_x pos" "pos_x pos \<le> 49" "0 \<le> pos_y pos" "pos_y pos \<le> 49"
  shows "positionFromId (positionToId pos) =
           Some \<lparr>pos_x = pos_x pos, pos_y = pos_y pos, roomName = roomName pos\<rparr>"
  using assms
  by (simp add: positionFromId_def positionToId_def charCodeAt_def charCode_fromCharCode)

text \<open>
  C10. For a position with coordinates between 0 and 49 and any room name, decoding its
  identifier gives back the same x, the same y and the same room name.
\<close>

theorem positionFromId_positionToId:
  assumes "0 \<le> pos_x pos" "pos_x pos \<le> 49" "0 \<le> pos_y pos" "pos_y pos \<le> 49"
  shows "positionFromId (positionToId pos) =
           Some \<lparr>pos_x = pos_x pos, pos_y = pos_y pos, roomName = roomName pos\<rparr>"
  using assms by (rule position_id_roundtrip)

theorem positionFromId_positionToId_witness:
  "positionFromId (positionToId \<lparr>pos_x = 25, pos_y = 49, roomName = map fromCharCode [69, 48, 83, 49]\<rparr>) =
     Some \<lparr>pos_x = 25, pos_y = 49, roomName = map fromCharCode [69, 48, 83, 49]\<rparr>"
  using positionFromId_positionToId
          [of "\<lparr>pos_x = 25, pos_y = 49, roomName = map fromCharCode [69, 48, 83, 49]\<rparr>"]
  by simp

subsection \<open>The codec\<close>

lemma indexOf_ge: "- 1 \<le> indexOf xs v"
  by (induction xs) (auto simp: Let_def)

lemma indexOf_absent: "indexOf xs v = - 1 \<longleftrightarrow> v \<notin> set xs"
proof (induction xs)
  case Nil
  then show ?case by simp
next
  case (Cons a xs)
  then show ?case using indexOf_ge [of xs v] by (auto simp: Let_def)
qed

lemma indexOf_bound: "v \<in> set xs \<Longrightarrow> 0 \<le> indexOf xs v \<and> indexOf xs v < int (length xs)"
  by (induction xs) (auto simp: Let_def indexOf_absent)

lemma indexOf_nth: "v \<in> set xs \<Longrightarrow> xs ! nat (indexOf xs v) = v"
proof (induction xs)
  case Nil
  then show ?case by simp
next
  case (Cons a xs)
  show ?case
  proof (cases "a = v")
    case True
    then show ?thesis by simp
  next
    case False
    with Cons.prems have m: "v \<in> set xs" by simp
    from indexOf_bound [OF m] have "nat (indexOf xs v + 1) = Suc (nat (indexOf xs v))" by arith
    with False m Cons.IH show ?thesis by (simp add: Let_def indexOf_absent)
  qed
qed

lemma indexOf_append: "v \<in> set xs \<Longrightarrow> indexOf (xs @ ys) v = indexOf xs v"
  by (induction xs) (auto simp: Let_def indexOf_absent)

lemma indexOf_append_new: "v \<notin> set xs \<Longrightarrow> indexOf (xs @ [v]) v = int (length xs)"
  by (induction xs) (auto simp: Let_def)

lemma offsetOf_spec:
  assumes "offsetOf T c = (off, T')"
  shows "(\<exists>ext. T' = T @ ext) \<and> c \<in> set T' \<and> indexOf T' c = off"
  using assms
  by (auto simp: offsetOf_def Let_def indexOf_absent indexOf_append_new split: if_splits)

lemma offsetOf_set:
  assumes "offsetOf T c = (off, T')"
  shows "set T' = insert c (set T) \<and> (distinct T \<longrightarrow> distinct T')"
  using assms
  by (auto simp: offsetOf_def Let_def indexOf_absent split: if_splits)

lemma pack_loop_spec:
  assumes "pack_loop i cs T cm = (T', cm')"
  shows "(\<exists>ext. T' = T @ ext) \<and> cm' = cm @ entries i cs T' \<and> (\<forall>c \<in> set cs. c \<noteq> 0 \<longrightarrow> uint c \<in> set T')"
  using assms
proof (induction cs arbitrary: i T cm)
  case Nil
  then show ?case by simp
next
  case (Cons c cs)
  show ?case
  proof (cases "c = 0")
    case True
    with Cons.prems have "pack_loop (Suc i) cs T cm = (T', cm')" by simp
    from Cons.IH [OF this] True show ?thesis by simp
  next
    case False
    obtain off T1 where o: "offsetOf T (uint c) = (off, T1)" by (cases "offsetOf T (uint c)")
    with False Cons.prems
    have p: "pack_loop (Suc i) cs T1 (cm @ [int i * SPACER + off]) = (T', cm')" by simp
    from offsetOf_spec [OF o] obtain e1 where
      e1: "T1 = T @ e1" and m1: "uint c \<in> set T1" and i1: "indexOf T1 (uint c) = off" by blast
    from Cons.IH [OF p] obtain e2 where
      e2: "T' = T1 @ e2" and cm: "cm' = (cm @ [int i * SPACER + off]) @ entries (Suc i) cs T'"
      and mem: "\<forall>c \<in> set cs. c \<noteq> 0 \<longrightarrow> uint c \<in> set T'" by blast
    have "indexOf T' (uint c) = off" using e2 m1 i1 by (simp add: indexOf_append)
    moreover have "uint c \<in> set T'" using e2 m1 by simp
    moreover have "T' = T @ (e1 @ e2)" using e1 e2 by simp
    ultimately show ?thesis using False cm mem by auto
  qed
qed

lemma length_typed_store [simp]: "length (typed_store b i v) = length b"
  by (simp add: typed_store_def)

lemma length_unpack_loop [simp]: "length (unpack_loop codec us b) = length b"
  by (induction us arbitrary: b) (simp_all add: Let_def)

lemma unpack_loop_entries:
  assumes "length T \<le> 22" "\<forall>c \<in> set cs. c \<noteq> 0 \<longrightarrow> uint c \<in> set T"
    "i + length cs \<le> length b" "length b \<le> 2978" "k < length b"
  shows "unpack_loop (map Some T) (map fromCharCode (entries i cs T)) b ! k =
           (if i \<le> k \<and> k < i + length cs \<and> cs ! (k - i) \<noteq> 0 then cs ! (k - i) else b ! k)"
  using assms
proof (induction cs arbitrary: i b)
  case Nil
  then show ?case by auto
next
  case (Cons c cs)
  have len: "Suc i + length cs \<le> length b" using Cons.prems by simp
  have mem: "\<forall>c \<in> set cs. c \<noteq> 0 \<longrightarrow> uint c \<in> set T" using Cons.prems by simp
  show ?case
  proof (cases "c = 0")
    case True
    have "unpack_loop (map Some T) (map fromCharCode (entries (Suc i) cs T)) b ! k =
           (if Suc i \<le> k \<and> k < Suc i + length cs \<and> cs ! (k - Suc i) \<noteq> 0 then cs ! (k - Suc i) else b ! k)"
      using Cons.IH [OF Cons.prems(1) mem len Cons.prems(4) Cons.prems(5)] .
    with True show ?thesis
      by (cases "k = i") (auto simp: nth_Cons' Suc_diff_Suc)
  next
    case False
    define off where "off = indexOf T (uint c)"
    define e where "e = int i * SPACER + off"
    have cin: "uint c \<in> set T" using False Cons.prems by simp
    have ob: "0 \<le> off" "off < 22" "T ! nat off = uint c"
      using indexOf_bound [OF cin] indexOf_nth [OF cin] Cons.prems(1) by (simp_all add: off_def)
    have ib: "i < length b" "int i < 2978" using Cons.prems by simp_all
    have eb: "0 \<le> e" "e < 65536" using ob ib by (simp_all add: e_def SPACER_def)
    have cc: "charCode (fromCharCode e) = e" using eb by (rule charCode_fromCharCode)
    have dv: "e div SPACER = int i" "e mod SPACER = off" using ob by (simp_all add: e_def SPACER_def)
    have nl: "nat off < length T" using indexOf_bound [OF cin] unfolding off_def by linarith
    have st: "typed_store b (e div SPACER) (if nat (e mod SPACER) < length (map Some T) then map Some T ! nat (e mod SPACER) else None) = b[i := c]"
      using ob ib nl by (simp add: dv typed_store_def toUint8_def)
    have step: "unpack_loop (map Some T) (map fromCharCode (entries i (c # cs) T)) b =
                unpack_loop (map Some T) (map fromCharCode (entries (Suc i) cs T)) (b[i := c])"
      using False st by (simp add: Let_def cc e_def [symmetric] off_def [symmetric])
    have "unpack_loop (map Some T) (map fromCharCode (entries (Suc i) cs T)) (b[i := c]) ! k =
           (if Suc i \<le> k \<and> k < Suc i + length cs \<and> cs ! (k - Suc i) \<noteq> 0 then cs ! (k - Suc i) else b[i := c] ! k)"
      using Cons.IH [of "Suc i" "b[i := c]"] Cons.prems(1) mem len Cons.prems(4) Cons.prems(5) by simp
    with False ib show ?thesis unfolding step
      by (cases "k = i") (auto simp: nth_Cons' Suc_diff_Suc)
  qed
qed

lemma entries_bound:
  assumes "length T \<le> 22" "\<forall>c \<in> set cs. c \<noteq> 0 \<longrightarrow> uint c \<in> set T" "e \<in> set (entries i cs T)"
  shows "0 \<le> e \<and> e < (int i + int (length cs)) * 22"
  using assms
proof (induction cs arbitrary: i)
  case Nil
  then show ?case by simp
next
  case (Cons c cs)
  show ?case
  proof (cases "e \<in> set (entries (Suc i) cs T)")
    case True
    with Cons.IH [of "Suc i"] Cons.prems show ?thesis by simp
  next
    case False
    with Cons.prems have c: "c \<noteq> 0" and e: "e = int i * SPACER + indexOf T (uint c)"
      by (auto split: if_splits)
    with Cons.prems have "uint c \<in> set T" by simp
    from indexOf_bound [OF this] Cons.prems(1) e show ?thesis by (simp add: SPACER_def)
  qed
qed


lemma pack_loop_zeros: "pack_loop i (replicate n 0) T cm = (T, cm)"
  by (induction n arbitrary: i) simp_all

lemma pack_loop_set:
  assumes "pack_loop i cs T cm = (T', cm')"
  shows "set T' = set T \<union> uint ` (set cs - {0}) \<and> (distinct T \<longrightarrow> distinct T')"
  using assms
proof (induction cs arbitrary: i T cm)
  case Nil
  then show ?case by simp
next
  case (Cons c cs)
  show ?case
  proof (cases "c = 0")
    case True
    with Cons.prems have "pack_loop (Suc i) cs T cm = (T', cm')" by simp
    from Cons.IH [OF this] True show ?thesis by auto
  next
    case False
    obtain off T1 where o: "offsetOf T (uint c) = (off, T1)" by (cases "offsetOf T (uint c)")
    with False Cons.prems
    have p: "pack_loop (Suc i) cs T1 (cm @ [int i * SPACER + off]) = (T', cm')" by simp
    from Cons.IH [OF p] offsetOf_set [OF o] False show ?thesis by auto
  qed
qed

lemma unpack_no_header:
  assumes "\<not> (packed \<noteq> [] \<and> packed ! 0 = TRIGGER)"
  shows "bits (unpack packed T) = unpack_loop (map Some T) packed (replicate 2500 0)"
  unfolding unpack_def if_not_P [OF assms] by (simp add: new_CostMatrix_def)

lemma unpack_loop_append:
  "unpack_loop codec (us @ vs) b = unpack_loop codec vs (unpack_loop codec us b)"
  by (induction us arbitrary: b) (simp_all add: Let_def)

lemma entries_extend:
  assumes "\<forall>c \<in> set cs. c \<noteq> 0 \<longrightarrow> uint c \<in> set T"
  shows "entries i cs (T @ r) = entries i cs T"
  using assms by (induction cs arbitrary: i) (simp_all add: indexOf_append)

lemma costMap_complete_decodes:
  assumes "costMap_complete m offs"
  shows "length (bits m) = 2500 \<and>
         (\<forall>r. length (offs @ r) \<le> 22 \<longrightarrow>
            (\<forall>e \<in> set (costMap m). 0 \<le> e \<and> e < 55000) \<and>
            unpack_loop (map Some (offs @ r)) (map fromCharCode (costMap m)) (replicate 2500 0) = bits m)"
  using assms
proof (induction rule: costMap_complete.induct)
  case (fresh offs)
  then show ?case by (simp add: new_CostMatrix_def)
next
  case (updated m offs x y cost m' offs')
  obtain off where o: "offsetOf offs cost = (off, offs')" and
    m': "m' = m\<lparr>bits := typed_store (bits m) (x * 50 + y) (Some (min (max 0 cost) 255)),
                 costMap := costMap m @ [(x * 50 + y) * SPACER + off]\<rparr>"
    using updated.hyps(8) by (auto simp: update_def Let_def split: prod.splits)
  from offsetOf_spec [OF o] obtain ext where
    e: "offs' = offs @ ext" and cin: "cost \<in> set offs'" and io: "indexOf offs' cost = off" by blast
  have len: "length (bits m') = 2500" using updated.IH by (simp add: m')
  have main: "(\<forall>e \<in> set (costMap m'). 0 \<le> e \<and> e < 55000) \<and>
            unpack_loop (map Some (offs' @ r)) (map fromCharCode (costMap m')) (replicate 2500 0) = bits m'"
    if sz: "length (offs' @ r) \<le> 22" for r
  proof -
    let ?T = "offs' @ r"
    define idx where "idx = x * 50 + y"
    have T: "?T = offs @ (ext @ r)" using e by simp
    from updated.IH sz have ih1: "\<forall>e \<in> set (costMap m). 0 \<le> e \<and> e < 55000"
      and ih2: "unpack_loop (map Some ?T) (map fromCharCode (costMap m)) (replicate 2500 0) = bits m"
      unfolding T by (metis)+
    have offT: "indexOf ?T cost = off" using cin io by (simp add: indexOf_append)
    have cT: "cost \<in> set ?T" using cin by simp
    have ob: "0 \<le> off" "off < 22" "?T ! nat off = cost" "nat off < length ?T"
      using indexOf_bound [OF cT] indexOf_nth [OF cT] sz offT by auto
    have ib: "0 \<le> idx" "idx < 2500" using updated.hyps by (auto simp: idx_def)
    define ent where "ent = idx * SPACER + off"
    have eb: "0 \<le> ent" "ent < 55000" using ob ib by (simp_all add: ent_def SPACER_def)
    then have cc: "charCode (fromCharCode ent) = ent" by (intro charCode_fromCharCode) simp_all
    have dv: "ent div SPACER = idx" "ent mod SPACER = off" using ob(1,2) by (simp_all add: ent_def SPACER_def)
    have cl: "min (max 0 cost) 255 = cost" using updated.hyps by simp
    have m'': "m' = m\<lparr>bits := typed_store (bits m) idx (Some cost), costMap := costMap m @ [ent]\<rparr>"
      unfolding m' cl idx_def [symmetric] ent_def ..
    define codec where "codec = map Some ?T"
    have cd: "nat off < length codec" "codec ! nat off = Some cost"
      using ob by (simp_all add: codec_def del: map_append)
    have "unpack_loop codec (map fromCharCode (costMap m')) (replicate 2500 0) =
            unpack_loop codec [fromCharCode ent] (unpack_loop codec (map fromCharCode (costMap m)) (replicate 2500 0))"
      by (simp add: m'' unpack_loop_append)
    also have "\<dots> = unpack_loop codec [fromCharCode ent] (bits m)"
      using ih2 by (simp only: codec_def)
    also have "\<dots> = typed_store (bits m) idx (Some cost)"
      using cd by (simp add: Let_def cc dv)
    also have "\<dots> = bits m'" by (simp add: m'')
    finally have dec: "unpack_loop (map Some ?T) (map fromCharCode (costMap m')) (replicate 2500 0) = bits m'"
      by (simp only: codec_def)
    have "\<forall>e \<in> set (costMap m'). 0 \<le> e \<and> e < 55000"
      using ih1 eb by (auto simp: m'')
    with dec show ?thesis by simp
  qed
  from len main show ?case by blast
next
  case (packed m offs p m' offs')
  obtain T cm where pl: "pack_loop 0 (bits m) offs [] = (T, cm)"
    by (cases "pack_loop 0 (bits m) offs []")
  with packed have T: "T = offs'" and m': "m' = m\<lparr>costMap := cm\<rparr>"
    by (simp_all add: pack_def)
  from pack_loop_spec [OF pl] T have cm: "cm = entries 0 (bits m) offs'"
    and mem: "\<forall>c \<in> set (bits m). c \<noteq> 0 \<longrightarrow> uint c \<in> set offs'" by simp_all
  have len: "length (bits m') = 2500" using packed by (simp add: m')
  have main: "(\<forall>e \<in> set (costMap m'). 0 \<le> e \<and> e < 55000) \<and>
            unpack_loop (map Some (offs' @ r)) (map fromCharCode (costMap m')) (replicate 2500 0) = bits m'"
    if sz: "length (offs' @ r) \<le> 22" for r
  proof -
    let ?T = "offs' @ r"
    have memT: "\<forall>c \<in> set (bits m). c \<noteq> 0 \<longrightarrow> uint c \<in> set ?T" using mem by simp
    have cmT: "cm = entries 0 (bits m) ?T" using cm entries_extend [OF mem] by simp
    have bnd: "\<forall>e \<in> set (costMap m'). 0 \<le> e \<and> e < 55000"
    proof
      fix e assume "e \<in> set (costMap m')"
      then have "e \<in> set (entries 0 (bits m) ?T)" using cmT by (simp add: m')
      from entries_bound [OF sz memT this] packed.hyps(1) show "0 \<le> e \<and> e < 55000" by simp
    qed
    have dec: "unpack_loop (map Some ?T) (map fromCharCode (entries 0 (bits m) ?T)) (replicate 2500 0) = bits m"
    proof (rule nth_equalityI)
      show "length (unpack_loop (map Some ?T) (map fromCharCode (entries 0 (bits m) ?T)) (replicate 2500 0)) =
              length (bits m)"
        using packed.hyps(1) by simp
    next
      fix k assume "k < length (unpack_loop (map Some ?T) (map fromCharCode (entries 0 (bits m) ?T)) (replicate 2500 0))"
      then have k: "k < 2500" by simp
      have "unpack_loop (map Some ?T) (map fromCharCode (entries 0 (bits m) ?T)) (replicate 2500 0) ! k =
            (if 0 \<le> k \<and> k < 0 + length (bits m) \<and> bits m ! (k - 0) \<noteq> 0 then bits m ! (k - 0)
             else replicate 2500 0 ! k)"
        by (rule unpack_loop_entries [OF sz memT]) (use packed.hyps(1) k in simp_all)
      with k packed.hyps(1)
      show "unpack_loop (map Some ?T) (map fromCharCode (entries 0 (bits m) ?T)) (replicate 2500 0) ! k = bits m ! k"
        by simp
    qed
    from bnd dec cmT show ?thesis by (simp add: m')
  qed
  from len main show ?case by blast
next
  case (grown m offs ext)
  have "(\<forall>e \<in> set (costMap m). 0 \<le> e \<and> e < 55000) \<and>
            unpack_loop (map Some ((offs @ ext) @ r)) (map fromCharCode (costMap m)) (replicate 2500 0) = bits m"
    if "length ((offs @ ext) @ r) \<le> 22" for r
    using grown.IH that by (metis append_assoc)
  with grown.IH show ?case by blast
qed


text \<open>
  C1 (as amended). Take a cost grid of 2500 byte cells that has been filled either with \<open>set\<close>
  only (its cost map is empty), or with \<open>update\<close> only, from a new matrix, at cells of the room
  and with byte costs (so that its cost map records every cell written; the matrix that an
  earlier \<open>pack\<close> left is such a grid too). Pack it, and let the symbol table \<open>OFFSETS\<close> hold at
  most 22 entries after the pack. Unpacking the string against that table gives a grid with
  the original cost in every cell.
\<close>

theorem pack_unpack_roundtrip:
  assumes built: "length (bits m) = 2500 \<and> costMap m = [] \<or> costMap_complete m offs"
    and pk: "pack m offs = (packed, m', offs')" and sz: "length offs' \<le> 22"
  shows "bits (unpack packed offs') = bits m"
proof -
  have c: "costMap_complete m' offs' \<and> packed = map fromCharCode (costMap m') \<and> bits m' = bits m"
  proof (cases "costMap m = []")
    case True
    from built have len: "length (bits m) = 2500" using costMap_complete_decodes by blast
    from costMap_complete.packed [OF len True pk] have "costMap_complete m' offs'" .
    moreover from pk True have "packed = map fromCharCode (costMap m')" "bits m' = bits m"
      by (auto simp: pack_def split: prod.splits)
    ultimately show ?thesis by simp
  next
    case False
    with built have "costMap_complete m offs" by simp
    moreover from pk False have "m' = m" "offs' = offs" "packed = map fromCharCode (costMap m)"
      by (auto simp: pack_def)
    ultimately show ?thesis by simp
  qed
  from costMap_complete_decodes [of m' offs'] c sz
  have bnd: "\<forall>e \<in> set (costMap m'). 0 \<le> e \<and> e < 55000"
    and dec: "unpack_loop (map Some offs') (map fromCharCode (costMap m')) (replicate 2500 0) = bits m'"
    by (metis append_Nil2)+
  have nohdr: "\<not> (packed \<noteq> [] \<and> packed ! 0 = TRIGGER)"
  proof
    assume a: "packed \<noteq> [] \<and> packed ! 0 = TRIGGER"
    with c have ne: "costMap m' \<noteq> []" by simp
    then have "costMap m' ! 0 \<in> set (costMap m')" by simp
    with bnd have b: "0 \<le> costMap m' ! 0" "costMap m' ! 0 < 55000" by simp_all
    from a ne c have "fromCharCode (costMap m' ! 0) = fromCharCode 65355"
      by (simp add: TRIGGER_def)
    then have "charCode (fromCharCode (costMap m' ! 0)) = charCode (fromCharCode 65355)" by simp
    with b show False by (simp add: charCode_fromCharCode)
  qed
  from unpack_no_header [OF nohdr, of offs'] c dec show ?thesis by simp
qed

lemma pack_grid22:
  "pack grid22 [] =
     (map fromCharCode [0, 23, 46, 69, 92, 115, 138, 161, 184, 207, 230, 253, 276, 299, 322, 345,
                        368, 391, 414, 437, 460, 483],
      grid22\<lparr>costMap := [0, 23, 46, 69, 92, 115, 138, 161, 184, 207, 230, 253, 276, 299, 322, 345,
                          368, 391, 414, 437, 460, 483]\<rparr>,
      costs_1_22)"
  by (simp add: pack_def grid22_def costs_1_22_def offsetOf_def SPACER_def pack_loop_zeros)

lemma pack_grid_one_23:
  "pack (grid_one 23) costs_1_22 = ([fromCharCode 22], (grid_one 23)\<lparr>costMap := [22]\<rparr>, costs_1_22 @ [23])"
  by (simp add: pack_def grid_one_def costs_1_22_def offsetOf_def SPACER_def pack_loop_zeros)

lemma unpack_22:
  "bits (unpack [fromCharCode 22] (costs_1_22 @ [23])) = (replicate 2500 0)[1 := 1]"
  by (simp add: unpack_def new_CostMatrix_def TRIGGER_def fromCharCode_def charCode_def SPACER_def
      typed_store_def toUint8_def costs_1_22_def)

lemma grid_road_eval:
  "update 10 10 1 new_CostMatrix [] = (grid_road, [1])"
  "grid_road = \<lparr>bits = (replicate 2500 0)[510 := 1], costMap = [11220]\<rparr>"
  "pack grid_road [1] = ([fromCharCode 11220], grid_road, [1])"
  by (simp_all add: grid_road_def update_def offsetOf_def typed_store_def toUint8_def
      new_CostMatrix_def SPACER_def pack_def)

theorem pack_unpack_roundtrip_witness:
  "length (bits grid22) = 2500 \<and> costMap grid22 = [] \<and>
   bits (unpack (map fromCharCode [0, 23, 46, 69, 92, 115, 138, 161, 184, 207, 230, 253, 276, 299,
                                   322, 345, 368, 391, 414, 437, 460, 483]) costs_1_22) = bits grid22 \<and>
   update 10 10 1 new_CostMatrix [] = (grid_road, [1]) \<and> costMap_complete grid_road [1] \<and>
   costMap grid_road = [11220] \<and>
   bits (unpack [fromCharCode 11220] [1]) = bits grid_road"
proof -
  have l: "length (bits grid22) = 2500 \<and> costMap grid22 = []" by (simp add: grid22_def costs_1_22_def)
  then have b1: "length (bits grid22) = 2500 \<and> costMap grid22 = [] \<or> costMap_complete grid22 []" ..
  have s: "length costs_1_22 \<le> 22" by (simp add: costs_1_22_def)
  have r1: "bits (unpack (map fromCharCode [0, 23, 46, 69, 92, 115, 138, 161, 184, 207, 230, 253, 276, 299,
                                   322, 345, 368, 391, 414, 437, 460, 483]) costs_1_22) = bits grid22"
    by (rule pack_unpack_roundtrip [OF b1 pack_grid22 s])
  have u: "costMap_complete grid_road [1]"
    by (rule costMap_complete.updated [OF costMap_complete.fresh _ _ _ _ _ _ grid_road_eval(1)]) simp_all
  then have b2: "length (bits grid_road) = 2500 \<and> costMap grid_road = [] \<or> costMap_complete grid_road [1]" ..
  have s2: "length [1::int] \<le> 22" by simp
  have r2: "bits (unpack [fromCharCode 11220] [1]) = bits grid_road"
    by (rule pack_unpack_roundtrip [OF b2 grid_road_eval(3) s2])
  have cm: "costMap grid_road = [11220]" by (simp add: grid_road_eval(2))
  from l r1 grid_road_eval(1) u cm r2 show ?thesis by simp
qed

lemma grid_clamped_eval:
  "update 0 0 300 new_CostMatrix [] = (grid_clamped, [300])"
  "grid_clamped = \<lparr>bits = (replicate 2500 0)[0 := 255], costMap = [0]\<rparr>"
  "pack grid_clamped [300] = ([fromCharCode 0], grid_clamped, [300])"
  "bits (unpack [fromCharCode 0] [300]) ! 0 = 44"
  by (simp_all add: grid_clamped_def update_def offsetOf_def typed_store_def toUint8_def
      new_CostMatrix_def SPACER_def pack_def unpack_def TRIGGER_def fromCharCode_def charCode_def)

text \<open>
  C1 as stated fails, in three ways. A grid with a single nonzero cost does not survive the
  round trip when an earlier pack (of a grid with 22 distinct costs) has filled the table: the
  cost 23 gets offset 22, and the unit \<open>0 * 22 + 22\<close> decodes as cell 1 with symbol 0. For a
  matrix whose cost map \<open>update\<close> has filled, \<open>pack\<close> writes that map only: a cost that \<open>set\<close> has
  stored since is lost. And \<open>update\<close> with a cost above 255 stores 255 in the cell and the cost
  itself in the table: the round trip gives the cost modulo 256.
\<close>

theorem roundtrip_full_table_counterexample:
  "snd (snd (pack grid22 [])) = costs_1_22 \<and>
   pack (grid_one 23) costs_1_22 = ([fromCharCode 22], (grid_one 23)\<lparr>costMap := [22]\<rparr>, costs_1_22 @ [23]) \<and>
   length (bits (grid_one 23)) = 2500 \<and>
   set (bits (grid_one 23)) - {0} = {23} \<and>
   bits (grid_one 23) ! 0 = 23 \<and>
   bits (unpack [fromCharCode 22] (costs_1_22 @ [23])) ! 0 = 0 \<and>
   bits (unpack [fromCharCode 22] (costs_1_22 @ [23])) \<noteq> bits (grid_one 23) \<and>
   snd (update 0 0 5 new_CostMatrix []) = [5] \<and>
   pack grid_mixed [5] = ([fromCharCode 0], grid_mixed, [5]) \<and>
   length (bits grid_mixed) = 2500 \<and>
   bits grid_mixed ! 1 = 7 \<and>
   bits (unpack [fromCharCode 0] [5]) ! 1 = 0 \<and>
   update 0 0 300 new_CostMatrix [] = (grid_clamped, [300]) \<and>
   pack grid_clamped [300] = ([fromCharCode 0], grid_clamped, [300]) \<and>
   length (bits grid_clamped) = 2500 \<and>
   bits grid_clamped ! 0 = 255 \<and>
   bits (unpack [fromCharCode 0] [300]) ! 0 = 44"
proof -
  have a: "bits (unpack [fromCharCode 22] (costs_1_22 @ [23])) ! 0 = 0"
    by (simp add: unpack_22)
  have b: "bits (grid_one 23) ! 0 = 23" by (simp add: grid_one_def)
  have c: "bits (unpack [fromCharCode 22] (costs_1_22 @ [23])) \<noteq> bits (grid_one 23)"
  proof
    assume "bits (unpack [fromCharCode 22] (costs_1_22 @ [23])) = bits (grid_one 23)"
    with a b show False by simp
  qed
  have d: "set (bits (grid_one 23)) - {0} = {23}" by (auto simp: grid_one_def)
  have e: "length (bits (grid_one 23)) = 2500" by (simp add: grid_one_def)
  have m: "grid_mixed = \<lparr>bits = (replicate 2500 0)[0 := 5, 1 := 7], costMap = [0]\<rparr>"
    by (simp add: grid_mixed_def matrix_set_def update_def offsetOf_def typed_store_def toUint8_def
        new_CostMatrix_def SPACER_def)
  have f: "snd (update 0 0 5 new_CostMatrix []) = [5]" by (simp add: update_def offsetOf_def)
  have g: "pack grid_mixed [5] = ([fromCharCode 0], grid_mixed, [5])" by (simp add: m pack_def)
  have h: "length (bits grid_mixed) = 2500" "bits grid_mixed ! 1 = 7" by (simp_all add: m)
  have i: "bits (unpack [fromCharCode 0] [5]) ! 1 = 0"
    by (simp add: unpack_def new_CostMatrix_def TRIGGER_def fromCharCode_def charCode_def SPACER_def
        typed_store_def toUint8_def)
  have j: "length (bits grid_clamped) = 2500" "bits grid_clamped ! 0 = 255"
    by (simp_all add: grid_clamped_eval(2))
  have first: "snd (snd (pack grid22 [])) = costs_1_22 \<and>
   pack (grid_one 23) costs_1_22 = ([fromCharCode 22], (grid_one 23)\<lparr>costMap := [22]\<rparr>, costs_1_22 @ [23])"
    by (simp add: pack_grid22 pack_grid_one_23)
  from first a b c d e f g h i j grid_clamped_eval(1,3,4) show ?thesis by (intro conjI) simp_all
qed

text \<open>
  C2 (as amended). The code has no bound on \<open>OFFSETS\<close> and no failing insertion: \<open>update\<close>
  appends its cost, and \<open>pack\<close> of a grid whose cost map is empty appends each nonzero cell
  cost, when the table does not hold the value yet. From a table without duplicates the table
  after the call holds the old values and those costs once each, so it has at most 22 entries
  exactly when these distinct values number at most 22.
\<close>

theorem OFFSETS_grows_by_unseen_costs:
  assumes "distinct offs"
  shows "(case update x y cost m offs of (m', offs') \<Rightarrow>
            distinct offs' \<and> set offs' = insert cost (set offs) \<and>
            length offs' = card (insert cost (set offs))) \<and>
         (case pack m offs of (packed, m', offs') \<Rightarrow>
            distinct offs' \<and>
            set offs' = (if costMap m = [] then set offs \<union> uint ` (set (bits m) - {0}) else set offs) \<and>
            length offs' = card (if costMap m = [] then set offs \<union> uint ` (set (bits m) - {0}) else set offs))"
proof -
  obtain off o1 where o: "offsetOf offs cost = (off, o1)" by (cases "offsetOf offs cost")
  from offsetOf_set [OF o] assms have u: "distinct o1" "set o1 = insert cost (set offs)" by simp_all
  from u have "length o1 = card (insert cost (set offs))" using distinct_card [of o1] by simp
  with u o have first: "case update x y cost m offs of (m', offs') \<Rightarrow>
            distinct offs' \<and> set offs' = insert cost (set offs) \<and>
            length offs' = card (insert cost (set offs))"
    by (simp add: update_def Let_def)
  have second: "case pack m offs of (packed, m', offs') \<Rightarrow>
            distinct offs' \<and>
            set offs' = (if costMap m = [] then set offs \<union> uint ` (set (bits m) - {0}) else set offs) \<and>
            length offs' = card (if costMap m = [] then set offs \<union> uint ` (set (bits m) - {0}) else set offs)"
  proof (cases "costMap m = []")
    case True
    obtain o2 cm where p: "pack_loop 0 (bits m) offs [] = (o2, cm)" by (cases "pack_loop 0 (bits m) offs []")
    from pack_loop_set [OF p] assms
    have s: "distinct o2" "set o2 = set offs \<union> uint ` (set (bits m) - {0})" by simp_all
    from s have "length o2 = card (set offs \<union> uint ` (set (bits m) - {0}))"
      using distinct_card [of o2] by simp
    with s p True show ?thesis by (simp add: pack_def)
  next
    case False
    with assms show ?thesis by (simp add: pack_def distinct_card)
  qed
  from first second show ?thesis ..
qed

theorem OFFSETS_grows_by_unseen_costs_witness:
  "(case update 10 10 255 (grid_one 23) [1, 5] of (m', offs') \<Rightarrow>
            distinct offs' \<and> set offs' = insert (255::int) (set [1, 5::int]) \<and>
            length offs' = card (insert (255::int) (set [1, 5::int]))) \<and>
         (case pack (grid_one 23) [1, 5] of (packed, m', offs') \<Rightarrow>
            distinct offs' \<and>
            set offs' = (if costMap (grid_one 23) = [] then set [1, 5::int] \<union> uint ` (set (bits (grid_one 23)) - {0}) else set [1, 5::int]) \<and>
            length offs' = card (if costMap (grid_one 23) = [] then set [1, 5::int] \<union> uint ` (set (bits (grid_one 23)) - {0}) else set [1, 5::int]))"
proof -
  have d: "distinct [1, 5::int]" by simp
  show ?thesis
    using OFFSETS_grows_by_unseen_costs [OF d, where x = 10 and y = 10 and cost = 255 and m = "grid_one 23"] .
qed

text \<open>
  C2 as stated fails: with the 22 entries that packing \<open>grid22\<close> leaves, \<open>update\<close> and \<open>pack\<close>
  both insert a 23rd entry.
\<close>

theorem OFFSETS_exceeds_22_counterexample:
  "snd (snd (pack grid22 [])) = costs_1_22 \<and> length costs_1_22 = 22 \<and>
   length (snd (update 0 0 23 new_CostMatrix costs_1_22)) = 23 \<and>
   length (snd (snd (pack (grid_one 23) costs_1_22))) = 23"
proof -
  have a: "length costs_1_22 = 22" by (simp add: costs_1_22_def)
  have b: "length (snd (update 0 0 23 new_CostMatrix costs_1_22)) = 23"
    by (simp add: update_def offsetOf_def costs_1_22_def)
  show ?thesis using a b by (simp add: pack_grid22 pack_grid_one_23)
qed

subsection \<open>Atlas\<close>

lemma refresh_fields:
  "lastReset (refresh i opts G g) = lastReset g"
  "COSTS_ROOM (refresh i opts G g) = (COSTS_ROOM g)(i \<mapsto> next_addr g)"
  "COSTS_CREEP (refresh i opts G g) = COSTS_CREEP g"
  "next_addr (refresh i opts G g) = Suc (next_addr g)"
  "b \<noteq> next_addr g \<Longrightarrow> heap (refresh i opts G g) b = heap g b"
  "rn \<noteq> i \<Longrightarrow> PACKED_COSTS (refresh i opts G g) rn = PACKED_COSTS g rn"
  by (simp_all add: refresh_def alloc_def Let_def split: option.split prod.split)

lemma refresh_unobservable:
  assumes "Game_rooms G i = None"
  shows "refresh i opts G g =
           g\<lparr>heap := (heap g)(next_addr g := new_CostMatrix), next_addr := Suc (next_addr g),
             COSTS_ROOM := (COSTS_ROOM g)(i \<mapsto> next_addr g)\<rparr>"
  using assms by (simp add: refresh_def alloc_def)

lemma refresh_observable:
  assumes "Game_rooms G i \<noteq> None"
  shows "PACKED_COSTS (refresh i opts G g) i \<noteq> None"
  using assms by (auto simp: refresh_def alloc_def Let_def split: option.split prod.split)

lemma reset_fields:
  "lastReset (reset G g) = Game_time G"
  "COSTS_ROOM (reset G g) = Map.empty"
  "COSTS_CREEP (reset G g) rn = (if COSTS_ROOM g rn \<noteq> None then None else COSTS_CREEP g rn)"
  "heap (reset G g) = heap g"
  "next_addr (reset G g) = next_addr g"
  "OFFSETS (reset G g) = OFFSETS g"
  "TERRAIN (reset G g) = TERRAIN g"
  "PACKED_COSTS (reset G g) rn =
     (if Game_time G mod RESET_FREQUENCY = 0 \<and> Game_rooms G rn \<noteq> None then None else PACKED_COSTS g rn)"
  by (auto simp: reset_def Let_def fun_eq_iff)

lemma addCreeps_fields:
  assumes "addCreeps i G g = Inr (a, g')"
  shows "a = next_addr g" "next_addr g' = Suc (next_addr g)" "COSTS_CREEP g' = (COSTS_CREEP g)(i \<mapsto> a)"
    "COSTS_ROOM g' = COSTS_ROOM g" "PACKED_COSTS g' = PACKED_COSTS g" "lastReset g' = lastReset g"
    "OFFSETS g' = OFFSETS g" "TERRAIN g' = TERRAIN g" "b \<noteq> next_addr g \<Longrightarrow> heap g' b = heap g b"
  using assms by (auto simp: addCreeps_def alloc_def Let_def split: option.splits)

lemma getCosts_cases:
  assumes "getCosts i opts G g = Inr (a, g')"
  shows "Game_time G \<le> lastReset g' \<and>
         (\<exists>base. COSTS_ROOM g' i = Some base \<and>
            (if opt_trackCreeps opts \<and> Game_rooms G i \<noteq> None then COSTS_CREEP g' i = Some a else a = base))"
  using assms
  unfolding getCosts_def Let_def
  by (auto simp: refresh_fields reset_fields alloc_def addCreeps_def Let_def
      split: option.splits if_splits sum.splits prod.splits)


lemma getCosts_total: "\<exists>a g'. getCosts i opts G g = Inr (a, g')"
  unfolding getCosts_def Let_def
  by (auto simp: refresh_fields reset_fields alloc_def addCreeps_def Let_def refresh_observable
      split: option.splits if_splits sum.splits prod.splits)

lemma same_step_again:
  assumes "getCosts i opts G g = Inr (a, g1)" "\<not> opt_refreshMatrix opts" "PACKED_COSTS g1 i \<noteq> None"
  shows "getCosts i opts G g1 = Inr (a, g1)"
proof -
  from getCosts_cases [OF assms(1)] obtain base where
    t: "Game_time G \<le> lastReset g1" and b: "COSTS_ROOM g1 i = Some base"
    and c: "if opt_trackCreeps opts \<and> Game_rooms G i \<noteq> None then COSTS_CREEP g1 i = Some a else a = base"
    by blast
  from t have nr: "\<not> lastReset g1 < Game_time G" by simp
  show ?thesis
    using nr assms(2,3) b c
    by (auto simp: getCosts_def Let_def split: if_splits)
qed

lemma next_step_fresh:
  assumes "getCosts i opts G g = Inr (a, g1)" "lastReset g1 < Game_time G2"
    "getCosts i opts2 G2 g1 = Inr (a2, g2)"
  shows "next_addr g1 \<le> a2 \<and> a2 < next_addr g2"
proof -
  from getCosts_cases [OF assms(1)] obtain base where b: "COSTS_ROOM g1 i = Some base" by blast
  show ?thesis
    using assms(2,3) b
    unfolding getCosts_def Let_def
    by (auto simp: refresh_fields reset_fields alloc_def addCreeps_def Let_def
        split: option.splits if_splits sum.splits prod.splits)
qed

lemma wf_reset: "wf_tables g \<Longrightarrow> wf_tables (reset G g)"
  by (auto simp: wf_tables_def reset_fields split: if_splits)

lemma wf_refresh: "wf_tables g \<Longrightarrow> wf_tables (refresh i opts G g)"
  by (fastforce simp: wf_tables_def refresh_fields split: if_splits)

lemma wf_getCosts:
  assumes "wf_tables g" "getCosts i opts G g = Inr (a, g1)"
  shows "wf_tables g1 \<and> a < next_addr g1"
proof -
  define ga where "ga = (if lastReset g < Game_time G then reset G g else g)"
  define gb where "gb = (if PACKED_COSTS ga i = None \<or> opt_refreshMatrix opts then refresh i opts G ga else ga)"
  have wa: "wf_tables ga" using assms(1) by (simp add: ga_def wf_reset)
  then have wb: "wf_tables gb" by (simp add: gb_def wf_refresh)
  from assms(2) have e: "(case (case COSTS_ROOM gb i of
                 Some base \<Rightarrow> Inr (base, gb)
               | None \<Rightarrow>
                   (case PACKED_COSTS gb i of
                      None \<Rightarrow> Inl TypeError
                    | Some packed \<Rightarrow>
                        (let (a, g3) = alloc (unpack packed (OFFSETS gb)) gb
                         in Inr (a, g3\<lparr>COSTS_ROOM := (COSTS_ROOM g3)(i \<mapsto> a)\<rparr>)))) of
           Inl e \<Rightarrow> Inl e
         | Inr (base, g4) \<Rightarrow>
             if \<not> (opt_trackCreeps opts \<and> Game_rooms G i \<noteq> None) then Inr (base, g4)
             else (case COSTS_CREEP g4 i of
                     Some a \<Rightarrow> Inr (a, g4)
                   | None \<Rightarrow> addCreeps i G g4)) = Inr (a, g1)"
    unfolding getCosts_def Let_def ga_def gb_def .
  show ?thesis
    using e wb
    by (fastforce simp: wf_tables_def alloc_def addCreeps_def Let_def
        split: option.splits if_splits sum.splits prod.splits)
qed

lemma wf_module_load: "wf_tables (module_load t)"
  by (simp add: wf_tables_def module_load_def)


lemma reset_heap: "reset G (g\<lparr>heap := h\<rparr>) = (reset G g)\<lparr>heap := h\<rparr>"
  by (simp add: reset_def Let_def cong: if_cong)

lemma refresh_heap:
  assumes "a \<noteq> next_addr g"
  shows "refresh i opts G (g\<lparr>heap := (heap g)(a := m)\<rparr>) =
           (refresh i opts G g)\<lparr>heap := (heap (refresh i opts G g))(a := m)\<rparr>"
  using assms
  by (auto simp: refresh_def alloc_def Let_def fun_upd_twist split: option.split prod.split)

lemma getCosts_heap_frame:
  assumes "\<not> opt_trackCreeps opts" "a < next_addr g"
  shows "getCosts i opts G (g\<lparr>heap := (heap g)(a := m)\<rparr>) =
           (case getCosts i opts G g of
              Inl e \<Rightarrow> Inl e
            | Inr (b, g2) \<Rightarrow> Inr (b, g2\<lparr>heap := (heap g2)(a := m)\<rparr>))"
proof -
  define ga where "ga = (if lastReset g < Game_time G then reset G g else g)"
  have na: "next_addr ga = next_addr g" by (simp add: ga_def reset_fields)
  have 1: "(if lastReset (g\<lparr>heap := (heap g)(a := m)\<rparr>) < Game_time G
            then reset G (g\<lparr>heap := (heap g)(a := m)\<rparr>) else g\<lparr>heap := (heap g)(a := m)\<rparr>) =
           ga\<lparr>heap := (heap ga)(a := m)\<rparr>"
    by (simp add: ga_def reset_heap reset_fields)
  define gb where "gb = (if PACKED_COSTS ga i = None \<or> opt_refreshMatrix opts then refresh i opts G ga else ga)"
  have nb: "next_addr g \<le> next_addr gb" by (simp add: gb_def refresh_fields na)
  have 2: "(if PACKED_COSTS (ga\<lparr>heap := (heap ga)(a := m)\<rparr>) i = None \<or> opt_refreshMatrix opts
            then refresh i opts G (ga\<lparr>heap := (heap ga)(a := m)\<rparr>) else ga\<lparr>heap := (heap ga)(a := m)\<rparr>) =
           gb\<lparr>heap := (heap gb)(a := m)\<rparr>"
    using assms(2) na by (simp add: gb_def refresh_heap)
  have l: "getCosts i opts G (g\<lparr>heap := (heap g)(a := m)\<rparr>) =
    (case (case COSTS_ROOM gb i of
                 Some base \<Rightarrow> Inr (base, gb\<lparr>heap := (heap gb)(a := m)\<rparr>)
               | None \<Rightarrow>
                   (case PACKED_COSTS gb i of
                      None \<Rightarrow> Inl TypeError
                    | Some packed \<Rightarrow>
                        (let (a', g3) = alloc (unpack packed (OFFSETS gb)) (gb\<lparr>heap := (heap gb)(a := m)\<rparr>)
                         in Inr (a', g3\<lparr>COSTS_ROOM := (COSTS_ROOM g3)(i \<mapsto> a')\<rparr>)))) of
           Inl e \<Rightarrow> Inl e
         | Inr (base, g4) \<Rightarrow> Inr (base, g4))"
    unfolding getCosts_def Let_def 1 2 using assms(1) by (simp split: option.splits sum.splits)
  have r: "getCosts i opts G g =
    (case (case COSTS_ROOM gb i of
                 Some base \<Rightarrow> Inr (base, gb)
               | None \<Rightarrow>
                   (case PACKED_COSTS gb i of
                      None \<Rightarrow> Inl TypeError
                    | Some packed \<Rightarrow>
                        (let (a', g3) = alloc (unpack packed (OFFSETS gb)) gb
                         in Inr (a', g3\<lparr>COSTS_ROOM := (COSTS_ROOM g3)(i \<mapsto> a')\<rparr>)))) of
           Inl e \<Rightarrow> Inl e
         | Inr (base, g4) \<Rightarrow> Inr (base, g4))"
    unfolding getCosts_def Let_def ga_def gb_def using assms(1) by (simp split: option.splits sum.splits)
  have ne: "a \<noteq> next_addr gb" using assms(2) nb by simp
  show ?thesis unfolding l r using ne
    by (auto simp: alloc_def Let_def fun_upd_twist split: option.splits)
qed

lemma same_step_base_or_fresh:
  assumes "\<not> opt_trackCreeps opts" "Game_time G \<le> lastReset g" "COSTS_ROOM g i = Some base"
    "getCosts i opts G g = Inr (b, g2)"
  shows "b = base \<or> next_addr g \<le> b"
  using assms
  unfolding getCosts_def Let_def
  by (auto simp: refresh_fields alloc_def Let_def split: option.splits if_splits sum.splits prod.splits)

lemma refresh_trackCreeps:
  "refresh i (opts\<lparr>opt_trackCreeps := b\<rparr>) G g = refresh i opts G g"
  by (simp add: refresh_def Let_def cong: option.case_cong prod.case_cong)

lemma getCosts_tracking:
  "getCosts i opts G g =
     (case getCosts i (opts\<lparr>opt_trackCreeps := False\<rparr>) G g of
        Inl e \<Rightarrow> Inl e
      | Inr (base, g0) \<Rightarrow>
          if \<not> (opt_trackCreeps opts \<and> Game_rooms G i \<noteq> None) then Inr (base, g0)
          else (case COSTS_CREEP g0 i of
                  Some a \<Rightarrow> Inr (a, g0)
                | None \<Rightarrow> addCreeps i G g0))"
proof -
  define ga where "ga = (if lastReset g < Game_time G then reset G g else g)"
  define gb where "gb = (if PACKED_COSTS ga i = None \<or> opt_refreshMatrix opts then refresh i opts G ga else ga)"
  define base where "base = (case COSTS_ROOM gb i of
                 Some base \<Rightarrow> Inr (base, gb)
               | None \<Rightarrow>
                   (case PACKED_COSTS gb i of
                      None \<Rightarrow> Inl TypeError
                    | Some packed \<Rightarrow>
                        (case alloc (unpack packed (OFFSETS gb)) gb of
                           (a, g3) \<Rightarrow> Inr (a, g3\<lparr>COSTS_ROOM := (COSTS_ROOM g3)(i \<mapsto> a)\<rparr>))))"
  have l: "getCosts i opts G g =
      (case base of Inl e \<Rightarrow> Inl e
       | Inr (base, g4) \<Rightarrow>
             if \<not> (opt_trackCreeps opts \<and> Game_rooms G i \<noteq> None) then Inr (base, g4)
             else (case COSTS_CREEP g4 i of
                     Some a \<Rightarrow> Inr (a, g4)
                   | None \<Rightarrow> addCreeps i G g4))"
    unfolding getCosts_def Let_def ga_def gb_def base_def ..
  have gb': "(if PACKED_COSTS ga i = None \<or> opt_refreshMatrix (opts\<lparr>opt_trackCreeps := False\<rparr>)
              then refresh i (opts\<lparr>opt_trackCreeps := False\<rparr>) G ga else ga) = gb"
    by (simp add: gb_def refresh_trackCreeps)
  have r: "getCosts i (opts\<lparr>opt_trackCreeps := False\<rparr>) G g = base"
    unfolding getCosts_def Let_def ga_def [symmetric] gb' base_def [symmetric]
    by (simp split: sum.split prod.split)
  show ?thesis unfolding l r ..
qed

lemma fold_set_shape:
  "length (bits (fold (\<lambda>c m. matrix_set m (pos_x (creep_pos c)) (pos_y (creep_pos c)) 255) cs m)) =
     length (bits m) \<and>
   costMap (fold (\<lambda>c m. matrix_set m (pos_x (creep_pos c)) (pos_y (creep_pos c)) 255) cs m) = costMap m"
  by (induction cs arbitrary: m) (simp_all add: matrix_set_def typed_store_def)

lemma fold_set_cells:
  assumes "k < length (bits m)"
  shows "bits (fold (\<lambda>c m. matrix_set m (pos_x (creep_pos c)) (pos_y (creep_pos c)) 255) cs m) ! k =
           (if \<exists>c \<in> set cs. pos_x (creep_pos c) * 50 + pos_y (creep_pos c) = int k then 255
            else bits m ! k)"
  using assms
proof (induction cs arbitrary: m)
  case Nil
  then show ?case by simp
next
  case (Cons c cs)
  let ?m1 = "matrix_set m (pos_x (creep_pos c)) (pos_y (creep_pos c)) 255"
  have l: "length (bits ?m1) = length (bits m)"
    by (simp add: matrix_set_def typed_store_def)
  have v: "bits ?m1 ! k = (if pos_x (creep_pos c) * 50 + pos_y (creep_pos c) = int k then 255 else bits m ! k)"
    using Cons.prems by (auto simp: matrix_set_def typed_store_def toUint8_def)
  have k1: "k < length (bits ?m1)" using Cons.prems l by simp
  from Cons.IH [OF k1] v show ?case by simp
qed

lemma same_step_base:
  assumes "Game_time G \<le> lastReset g" "COSTS_ROOM g i = Some base" "PACKED_COSTS g i \<noteq> None"
    "\<not> opt_trackCreeps opts" "\<not> opt_refreshMatrix opts"
  shows "getCosts i opts G g = Inr (base, g)"
  using assms by (auto simp: getCosts_def Let_def)

lemmas eval_defs = getCosts_def reset_def refresh_def alloc_def addStructures_def addCreeps_def
  update_def pack_def unpack_def offsetOf_def matrix_get_def matrix_set_def clone_def
  structure_cost_def typed_store_def toUint8_def new_CostMatrix_def module_load_def
  world_visible_def world_hidden_def opts0_def room1_def road_10_10_def creep_10_11_def
  STRUCTURE_ROAD_def STRUCTURE_RAMPART_def STRUCTURE_CONTAINER_def SPACER_def RESET_FREQUENCY_def
  TRIGGER_def fromCharCode_def charCode_def Let_def

lemma tick1:
  "getCosts roomA opts0 (world_visible 1) (module_load 1) = Inr (0, tick1_state)"
  by (simp add: eval_defs tick1_state_def)

lemma tick2_hidden:
  "\<exists>g2. getCosts roomA opts0 (world_hidden 2) tick1_state = Inr (1, g2) \<and> bits (heap g2 1) ! 510 = 1
      \<and> PACKED_COSTS g2 roomA \<noteq> None"
  by (simp add: eval_defs tick1_state_def)

lemma tick1_refresh:
  "\<exists>g1 g2. getCosts roomA (opts0\<lparr>opt_refreshMatrix := True\<rparr>) (world_visible 1) (module_load 1) = Inr (0, g1) \<and>
           getCosts roomA (opts0\<lparr>opt_refreshMatrix := True\<rparr>) (world_visible 1) g1 = Inr (1, g2)"
  by (simp add: eval_defs)

lemma tick1_hidden:
  "\<exists>g1 g2. getCosts roomA opts0 (world_hidden 1) (module_load 1) = Inr (0, g1) \<and>
           getCosts roomA opts0 (world_hidden 1) g1 = Inr (1, g2)"
  by (simp add: eval_defs)

lemma tick1_track:
  "\<exists>g1. getCosts roomA (opts0\<lparr>opt_trackCreeps := True\<rparr>) (world_visible 1) (module_load 1) = Inr (1, g1) \<and>
     COSTS_ROOM g1 roomA = Some 0 \<and>
     bits (heap g1 1) ! 511 = 255 \<and> bits (heap g1 0) ! 511 = 0 \<and> bits (heap g1 1) ! 510 = 1"
  by (simp add: eval_defs)


lemma getCosts_observable_packed:
  assumes "getCosts i opts G g = Inr (a, g1)" "Game_rooms G i \<noteq> None"
  shows "PACKED_COSTS g1 i \<noteq> None"
proof -
  define ga where "ga = (if lastReset g < Game_time G then reset G g else g)"
  define gb where "gb = (if PACKED_COSTS ga i = None \<or> opt_refreshMatrix opts then refresh i opts G ga else ga)"
  have pb: "PACKED_COSTS gb i \<noteq> None"
    using refresh_observable [OF assms(2), of opts ga] by (simp add: gb_def)
  from assms(1) have e: "(case (case COSTS_ROOM gb i of
                 Some base \<Rightarrow> Inr (base, gb)
               | None \<Rightarrow>
                   (case PACKED_COSTS gb i of
                      None \<Rightarrow> Inl TypeError
                    | Some packed \<Rightarrow>
                        (let (a, g3) = alloc (unpack packed (OFFSETS gb)) gb
                         in Inr (a, g3\<lparr>COSTS_ROOM := (COSTS_ROOM g3)(i \<mapsto> a)\<rparr>)))) of
           Inl e \<Rightarrow> Inl e
         | Inr (base, g4) \<Rightarrow>
             if \<not> (opt_trackCreeps opts \<and> Game_rooms G i \<noteq> None) then Inr (base, g4)
             else (case COSTS_CREEP g4 i of
                     Some a \<Rightarrow> Inr (a, g4)
                   | None \<Rightarrow> addCreeps i G g4)) = Inr (a, g1)"
    unfolding getCosts_def Let_def ga_def gb_def .
  show ?thesis
    using e pb
    by (auto simp: alloc_def addCreeps_def Let_def
        split: option.splits if_splits sum.splits prod.splits)
qed

text \<open>
  C3 (as amended). \<open>getCosts\<close> always returns a grid. For options that do not set
  \<open>refreshMatrix\<close>, and a region that is observable or has an entry in the durable store after
  the first call, a second call in the same step with the same options returns the same
  instance and leaves the whole module state as it is (nothing is rebuilt). A call made after
  the step counter has advanced past the recorded epoch returns a grid allocated in that call,
  an instance other than the one returned before.
\<close>

theorem getCosts_cache_epoch:
  "\<exists>a g1. getCosts i opts G g = Inr (a, g1) \<and>
     (\<not> opt_refreshMatrix opts \<and> (Game_rooms G i \<noteq> None \<or> PACKED_COSTS g1 i \<noteq> None)
        \<longrightarrow> getCosts i opts G g1 = Inr (a, g1)) \<and>
     (\<forall>G2. lastReset g1 < Game_time G2 \<longrightarrow>
        (\<exists>a2 g2. getCosts i opts G2 g1 = Inr (a2, g2) \<and> next_addr g1 \<le> a2 \<and> a2 < next_addr g2 \<and>
           (wf_tables g \<longrightarrow> a2 \<noteq> a)))"
proof -
  obtain a g1 where gc: "getCosts i opts G g = Inr (a, g1)" using getCosts_total by blast
  have same: "getCosts i opts G g1 = Inr (a, g1)"
    if "\<not> opt_refreshMatrix opts \<and> (Game_rooms G i \<noteq> None \<or> PACKED_COSTS g1 i \<noteq> None)"
    using that same_step_again [OF gc] getCosts_observable_packed [OF gc] by blast
  have later: "\<exists>a2 g2. getCosts i opts G2 g1 = Inr (a2, g2) \<and> next_addr g1 \<le> a2 \<and> a2 < next_addr g2 \<and>
           (wf_tables g \<longrightarrow> a2 \<noteq> a)" if lt: "lastReset g1 < Game_time G2" for G2
  proof -
    obtain a2 g2 where g2: "getCosts i opts G2 g1 = Inr (a2, g2)" using getCosts_total by blast
    from next_step_fresh [OF gc lt g2] have f: "next_addr g1 \<le> a2" "a2 < next_addr g2" by simp_all
    have "a2 \<noteq> a" if "wf_tables g" using wf_getCosts [OF that gc] f by simp
    with g2 f show ?thesis by blast
  qed
  from gc same later show ?thesis by blast
qed

theorem getCosts_cache_epoch_witness:
  "getCosts roomA opts0 (world_visible 1) (module_load 1) = Inr (0, tick1_state) \<and>
   \<not> opt_refreshMatrix opts0 \<and> Game_rooms (world_visible 1) roomA \<noteq> None \<and>
   getCosts roomA opts0 (world_visible 1) tick1_state = Inr (0, tick1_state) \<and>
   lastReset tick1_state < Game_time (world_visible 2) \<and> wf_tables (module_load 1) \<and>
   (\<exists>a2 g2. getCosts roomA opts0 (world_visible 2) tick1_state = Inr (a2, g2) \<and>
      next_addr tick1_state \<le> a2 \<and> a2 < next_addr g2 \<and> a2 \<noteq> 0)"
proof -
  from getCosts_cache_epoch [of roomA opts0 "world_visible 1" "module_load 1"]
  obtain a g1 where e: "getCosts roomA opts0 (world_visible 1) (module_load 1) = Inr (a, g1)"
    and same: "\<not> opt_refreshMatrix opts0 \<and>
                 (Game_rooms (world_visible 1) roomA \<noteq> None \<or> PACKED_COSTS g1 roomA \<noteq> None)
               \<longrightarrow> getCosts roomA opts0 (world_visible 1) g1 = Inr (a, g1)"
    and later: "\<forall>G2. lastReset g1 < Game_time G2 \<longrightarrow>
        (\<exists>a2 g2. getCosts roomA opts0 G2 g1 = Inr (a2, g2) \<and> next_addr g1 \<le> a2 \<and> a2 < next_addr g2 \<and>
           (wf_tables (module_load 1) \<longrightarrow> a2 \<noteq> a))"
    by blast
  from e tick1 have a: "a = 0" and g1: "g1 = tick1_state" by simp_all
  have h1: "\<not> opt_refreshMatrix opts0" by (simp add: opts0_def)
  have h2: "Game_rooms (world_visible 1) roomA \<noteq> None" by (simp add: world_visible_def)
  have h3: "lastReset tick1_state < Game_time (world_visible 2)"
    by (simp add: tick1_state_def world_visible_def)
  from same h1 h2 a g1 have c1: "getCosts roomA opts0 (world_visible 1) tick1_state = Inr (0, tick1_state)"
    by simp
  from later h3 a g1 wf_module_load [of 1]
  have c2: "\<exists>a2 g2. getCosts roomA opts0 (world_visible 2) tick1_state = Inr (a2, g2) \<and>
      next_addr tick1_state \<le> a2 \<and> a2 < next_addr g2 \<and> a2 \<noteq> 0"
    by blast
  from tick1 h1 h2 c1 h3 wf_module_load [of 1] c2 show ?thesis by blast
qed

text \<open>
  C3 as stated fails, in two ways. With \<open>refreshMatrix\<close> set, and for a region that is not
  observable and has no durable entry, the second call in the same step rebuilds: it returns
  a new instance (address 1, not 0).
\<close>

theorem same_step_rebuild_counterexample:
  "(\<exists>g1 g2. getCosts roomA (opts0\<lparr>opt_refreshMatrix := True\<rparr>) (world_visible 1) (module_load 1) = Inr (0, g1) \<and>
            getCosts roomA (opts0\<lparr>opt_refreshMatrix := True\<rparr>) (world_visible 1) g1 = Inr (1, g2)) \<and>
   (\<exists>g1 g2. getCosts roomA opts0 (world_hidden 1) (module_load 1) = Inr (0, g1) \<and>
            getCosts roomA opts0 (world_hidden 1) g1 = Inr (1, g2))"
  using tick1_refresh tick1_hidden by (rule conjI)

text \<open>
  C4 (as amended). Agent overlays never mutate the shared base grid of a region that is
  observable. In a state that satisfies the invariant of the tables, a call of \<open>getCosts\<close> with
  agent tracking for such a region leaves every grid that exists, the base grid of the region
  among them, and the durable store exactly as the same call without tracking leaves them. The
  grid returned is a clone of the base grid: either the overlay that an earlier call of this
  step made, or a new instance that holds the costs of the base grid with 255 at the cells of
  the agents in the region. It is never the base grid. Overwriting the returned grid leaves
  the base grid and the durable store as they are, and a following call without tracking in
  the same step returns the same instance with the same content as it would without the
  overwrite; without \<open>refreshMatrix\<close> that is the base grid with its content of before.
\<close>

theorem overlay_isolation:
  assumes wf: "wf_tables g" and tr: "opt_trackCreeps opts" and vis: "Game_rooms G i = Some room"
  shows "\<exists>a g1 base g0.
     getCosts i opts G g = Inr (a, g1) \<and>
     getCosts i (opts\<lparr>opt_trackCreeps := False\<rparr>) G g = Inr (base, g0) \<and>
     COSTS_ROOM g1 i = Some base \<and> COSTS_CREEP g1 i = Some a \<and> a \<noteq> base \<and> base < next_addr g0 \<and>
     (\<forall>b. b < next_addr g0 \<longrightarrow> heap g1 b = heap g0 b) \<and>
     PACKED_COSTS g1 = PACKED_COSTS g0 \<and> COSTS_ROOM g1 = COSTS_ROOM g0 \<and> OFFSETS g1 = OFFSETS g0 \<and>
     (case COSTS_CREEP g0 i of
        Some a0 \<Rightarrow> a = a0 \<and> g1 = g0
      | None \<Rightarrow>
          a = next_addr g0 \<and> costMap (heap g1 a) = [] \<and>
          length (bits (heap g1 a)) = length (bits (heap g0 base)) \<and>
          (\<forall>k < length (bits (heap g0 base)).
             bits (heap g1 a) ! k =
               (if \<exists>c \<in> set (find_creeps room). pos_x (creep_pos c) * 50 + pos_y (creep_pos c) = int k
                then 255 else bits (heap g0 base) ! k))) \<and>
     (\<forall>m opts2. \<not> opt_trackCreeps opts2 \<longrightarrow>
        heap (g1\<lparr>heap := (heap g1)(a := m)\<rparr>) base = heap g0 base \<and>
        PACKED_COSTS (g1\<lparr>heap := (heap g1)(a := m)\<rparr>) = PACKED_COSTS g0 \<and>
        (\<exists>b g2 g2'. getCosts i opts2 G g1 = Inr (b, g2) \<and>
           getCosts i opts2 G (g1\<lparr>heap := (heap g1)(a := m)\<rparr>) = Inr (b, g2') \<and>
           heap g2' b = heap g2 b \<and>
           (\<not> opt_refreshMatrix opts2 \<longrightarrow> b = base \<and> heap g2' b = heap g0 base)))"
proof -
  let ?nt = "opts\<lparr>opt_trackCreeps := False\<rparr>"
  have visn: "Game_rooms G i \<noteq> None" using vis by simp
  obtain base g0 where nt: "getCosts i ?nt G g = Inr (base, g0)" using getCosts_total by blast
  from getCosts_cases [OF nt] have b0: "COSTS_ROOM g0 i = Some base" by auto
  from wf_getCosts [OF wf nt] have w0: "wf_tables g0" and bl: "base < next_addr g0" by simp_all
  obtain a g1 where gc: "getCosts i opts G g = Inr (a, g1)" using getCosts_total by blast
  from getCosts_cases [OF gc] tr visn obtain base1 where
    t1: "Game_time G \<le> lastReset g1" and b1: "COSTS_ROOM g1 i = Some base1"
    and c1: "COSTS_CREEP g1 i = Some a" by auto
  from wf_getCosts [OF wf gc] have w1: "wf_tables g1" and al: "a < next_addr g1" by simp_all
  from getCosts_observable_packed [OF gc visn] have p1: "PACKED_COSTS g1 i \<noteq> None" .
  have step: "(case COSTS_CREEP g0 i of Some a0 \<Rightarrow> Inr (a0, g0) | None \<Rightarrow> addCreeps i G g0) = Inr (a, g1)"
    using getCosts_tracking [of i opts G g] nt gc tr visn by simp
  have rel: "heap g1 base = heap g0 base \<and> (\<forall>b. b < next_addr g0 \<longrightarrow> heap g1 b = heap g0 b) \<and>
             PACKED_COSTS g1 = PACKED_COSTS g0 \<and> COSTS_ROOM g1 = COSTS_ROOM g0 \<and> OFFSETS g1 = OFFSETS g0"
    using step bl by (auto simp: addCreeps_fields split: option.splits)
  then have bb: "base1 = base" using b0 b1 by simp
  from w1 b1 c1 have ne: "a \<noteq> base" unfolding bb by (auto simp: wf_tables_def)
  have ov: "case COSTS_CREEP g0 i of
        Some a0 \<Rightarrow> a = a0 \<and> g1 = g0
      | None \<Rightarrow>
          a = next_addr g0 \<and> costMap (heap g1 a) = [] \<and>
          length (bits (heap g1 a)) = length (bits (heap g0 base)) \<and>
          (\<forall>k < length (bits (heap g0 base)).
             bits (heap g1 a) ! k =
               (if \<exists>c \<in> set (find_creeps room). pos_x (creep_pos c) * 50 + pos_y (creep_pos c) = int k
                then 255 else bits (heap g0 base) ! k))"
  proof (cases "COSTS_CREEP g0 i")
    case (Some a0)
    with step show ?thesis by simp
  next
    case None
    let ?M = "fold (\<lambda>c m. matrix_set m (pos_x (creep_pos c)) (pos_y (creep_pos c)) 255)
                (find_creeps room) (clone (heap g0 base))"
    from None step b0 vis have a: "a = next_addr g0" and h: "heap g1 a = ?M"
      by (auto simp: addCreeps_def alloc_def Let_def)
    have cl: "length (bits (clone (heap g0 base))) = length (bits (heap g0 base))"
      "costMap (clone (heap g0 base)) = []" "bits (clone (heap g0 base)) = bits (heap g0 base)"
      by (simp_all add: clone_def new_CostMatrix_def)
    have cells: "bits ?M ! k =
               (if \<exists>c \<in> set (find_creeps room). pos_x (creep_pos c) * 50 + pos_y (creep_pos c) = int k
                then 255 else bits (heap g0 base) ! k)" if "k < length (bits (heap g0 base))" for k
      using fold_set_cells [of k "clone (heap g0 base)" "find_creeps room"] that cl by simp
    from None a h cl cells fold_set_shape [of "find_creeps room" "clone (heap g0 base)"]
    show ?thesis by simp
  qed
  have iso: "heap (g1\<lparr>heap := (heap g1)(a := m)\<rparr>) base = heap g0 base \<and>
        PACKED_COSTS (g1\<lparr>heap := (heap g1)(a := m)\<rparr>) = PACKED_COSTS g0 \<and>
        (\<exists>b g2 g2'. getCosts i opts2 G g1 = Inr (b, g2) \<and>
           getCosts i opts2 G (g1\<lparr>heap := (heap g1)(a := m)\<rparr>) = Inr (b, g2') \<and>
           heap g2' b = heap g2 b \<and>
           (\<not> opt_refreshMatrix opts2 \<longrightarrow> b = base \<and> heap g2' b = heap g0 base))"
    if n2: "\<not> opt_trackCreeps opts2" for m opts2
  proof -
    obtain b2 g2 where g2: "getCosts i opts2 G g1 = Inr (b2, g2)" using getCosts_total by blast
    from same_step_base_or_fresh [OF n2 t1 b1 g2] ne al bb have nb: "b2 \<noteq> a" by auto
    have fr: "getCosts i opts2 G (g1\<lparr>heap := (heap g1)(a := m)\<rparr>) = Inr (b2, g2\<lparr>heap := (heap g2)(a := m)\<rparr>)"
      using getCosts_heap_frame [OF n2 al, of i G m] g2 by simp
    have same: "b2 = base \<and> heap (g2\<lparr>heap := (heap g2)(a := m)\<rparr>) b2 = heap g0 base"
      if nr: "\<not> opt_refreshMatrix opts2"
    proof -
      from same_step_base [OF t1 b1 p1 n2 nr] g2 bb have "b2 = base" "g2 = g1" by simp_all
      with ne rel show ?thesis by simp
    qed
    from g2 fr nb same ne rel show ?thesis by auto
  qed
  from gc nt b1 bb c1 ne bl rel ov iso show ?thesis by blast
qed

theorem overlay_isolation_witness:
  "wf_tables (module_load 1) \<and> opt_trackCreeps (opts0\<lparr>opt_trackCreeps := True\<rparr>) \<and>
   Game_rooms (world_visible 1) roomA = Some room1 \<and>
   \<not> opt_trackCreeps opts0 \<and> \<not> opt_refreshMatrix opts0 \<and>
   getCosts roomA opts0 (world_visible 1) (module_load 1) = Inr (0, tick1_state) \<and>
   (\<exists>g1. getCosts roomA (opts0\<lparr>opt_trackCreeps := True\<rparr>) (world_visible 1) (module_load 1) = Inr (1, g1) \<and>
      COSTS_ROOM g1 roomA = Some 0 \<and> heap g1 0 = heap tick1_state 0 \<and>
      PACKED_COSTS g1 = PACKED_COSTS tick1_state \<and>
      bits (heap g1 1) ! 511 = 255 \<and> bits (heap g1 1) ! 510 = 1 \<and> bits (heap g1 0) ! 511 = 0 \<and>
      (\<exists>g2'. getCosts roomA opts0 (world_visible 1) (g1\<lparr>heap := (heap g1)(1 := grid_one 9)\<rparr>) = Inr (0, g2') \<and>
         heap g2' 0 = heap tick1_state 0))"
proof -
  have h1: "opt_trackCreeps (opts0\<lparr>opt_trackCreeps := True\<rparr>)" by simp
  have h2: "Game_rooms (world_visible 1) roomA = Some room1" by (simp add: world_visible_def)
  have h3: "\<not> opt_trackCreeps opts0" "\<not> opt_refreshMatrix opts0" by (simp_all add: opts0_def)
  have o: "opts0\<lparr>opt_trackCreeps := True, opt_trackCreeps := False\<rparr> = opts0" by (simp add: opts0_def)
  from overlay_isolation [OF wf_module_load h1 h2, of 1]
  obtain a g1 base g0 where
    e: "getCosts roomA (opts0\<lparr>opt_trackCreeps := True\<rparr>) (world_visible 1) (module_load 1) = Inr (a, g1)"
    and n: "getCosts roomA (opts0\<lparr>opt_trackCreeps := True, opt_trackCreeps := False\<rparr>) (world_visible 1)
              (module_load 1) = Inr (base, g0)"
    and b: "COSTS_ROOM g1 roomA = Some base"
    and fr: "\<forall>b. b < next_addr g0 \<longrightarrow> heap g1 b = heap g0 b" and bl: "base < next_addr g0"
    and pk: "PACKED_COSTS g1 = PACKED_COSTS g0"
    and iso: "\<forall>m opts2. \<not> opt_trackCreeps opts2 \<longrightarrow>
        heap (g1\<lparr>heap := (heap g1)(a := m)\<rparr>) base = heap g0 base \<and>
        PACKED_COSTS (g1\<lparr>heap := (heap g1)(a := m)\<rparr>) = PACKED_COSTS g0 \<and>
        (\<exists>b g2 g2'. getCosts roomA opts2 (world_visible 1) g1 = Inr (b, g2) \<and>
           getCosts roomA opts2 (world_visible 1) (g1\<lparr>heap := (heap g1)(a := m)\<rparr>) = Inr (b, g2') \<and>
           heap g2' b = heap g2 b \<and>
           (\<not> opt_refreshMatrix opts2 \<longrightarrow> b = base \<and> heap g2' b = heap g0 base))"
    by blast
  from n tick1 have base: "base = 0" and g0: "g0 = tick1_state" unfolding o by simp_all
  from tick1_track obtain g1' where
    e': "getCosts roomA (opts0\<lparr>opt_trackCreeps := True\<rparr>) (world_visible 1) (module_load 1) = Inr (1, g1')"
    and cells: "bits (heap g1' 1) ! 511 = 255" "bits (heap g1' 0) ! 511 = 0" "bits (heap g1' 1) ! 510 = 1"
    by blast
  from e e' have a: "a = 1" and g: "g1' = g1" by simp_all
  from fr bl base g0 have hb: "heap g1 0 = heap tick1_state 0" by simp
  from iso h3 obtain b2 g2 g2' where
    l: "getCosts roomA opts0 (world_visible 1) (g1\<lparr>heap := (heap g1)(a := grid_one 9)\<rparr>) = Inr (b2, g2')"
    and s: "b2 = base \<and> heap g2' b2 = heap g0 base"
    by blast
  from l s a base g0
  have later: "\<exists>g2'. getCosts roomA opts0 (world_visible 1) (g1\<lparr>heap := (heap g1)(1 := grid_one 9)\<rparr>) = Inr (0, g2') \<and>
         heap g2' 0 = heap tick1_state 0"
    by auto
  have "getCosts roomA (opts0\<lparr>opt_trackCreeps := True\<rparr>) (world_visible 1) (module_load 1) = Inr (1, g1) \<and>
      COSTS_ROOM g1 roomA = Some 0 \<and> heap g1 0 = heap tick1_state 0 \<and>
      PACKED_COSTS g1 = PACKED_COSTS tick1_state \<and>
      bits (heap g1 1) ! 511 = 255 \<and> bits (heap g1 1) ! 510 = 1 \<and> bits (heap g1 0) ! 511 = 0 \<and>
      (\<exists>g2'. getCosts roomA opts0 (world_visible 1) (g1\<lparr>heap := (heap g1)(1 := grid_one 9)\<rparr>) = Inr (0, g2') \<and>
         heap g2' 0 = heap tick1_state 0)"
    using e a b base hb pk g0 cells g later by simp
  with wf_module_load [of 1] h1 h2 h3 tick1 show ?thesis by blast
qed

text \<open>
  C4 as stated fails: with tracking enabled for a region that is not observable, \<open>getCosts\<close>
  returns the base grid itself (here unpacked from the durable entry of tick 1). Overwriting
  it changes what the next call without tracking returns in the same step.
\<close>

theorem tracking_hidden_region_counterexample:
  "getCosts roomA opts0 (world_visible 1) (module_load 1) = Inr (0, tick1_state) \<and>
   (\<exists>g2 g3 g3'. getCosts roomA (opts0\<lparr>opt_trackCreeps := True\<rparr>) (world_hidden 2) tick1_state = Inr (1, g2) \<and>
      COSTS_ROOM g2 roomA = Some 1 \<and>
      getCosts roomA opts0 (world_hidden 2) g2 = Inr (1, g3) \<and> bits (heap g3 1) ! 0 = 0 \<and>
      getCosts roomA opts0 (world_hidden 2) (g2\<lparr>heap := (heap g2)(1 := grid_one 9)\<rparr>) = Inr (1, g3') \<and>
      bits (heap g3' 1) ! 0 = 9)"
proof -
  have "\<exists>g2 g3 g3'. getCosts roomA (opts0\<lparr>opt_trackCreeps := True\<rparr>) (world_hidden 2) tick1_state = Inr (1, g2) \<and>
      COSTS_ROOM g2 roomA = Some 1 \<and>
      getCosts roomA opts0 (world_hidden 2) g2 = Inr (1, g3) \<and> bits (heap g3 1) ! 0 = 0 \<and>
      getCosts roomA opts0 (world_hidden 2) (g2\<lparr>heap := (heap g2)(1 := grid_one 9)\<rparr>) = Inr (1, g3') \<and>
      bits (heap g3' 1) ! 0 = 9"
    by (simp add: eval_defs tick1_state_def grid_one_def)
  with tick1 show ?thesis by (rule conjI)
qed

text \<open>
  C5 (as amended). For a region that is not observable: \<open>refresh\<close> stores a new all-zero grid
  as the base grid and leaves the durable store as it is; \<open>getCosts\<close> returns an all-zero
  grid (no structure data) and leaves the durable entry of the region as it is whenever the
  durable store has no entry for the region or \<open>refreshMatrix\<close> is set; and when the durable
  store has no entry, the next request for the region, whatever its options and the world
  then, builds the base grid of the region anew.
\<close>

theorem unobservable_region:
  assumes hid: "Game_rooms G i = None"
  shows "COSTS_ROOM (refresh i opts G g) i = Some (next_addr g) \<and>
         heap (refresh i opts G g) (next_addr g) = new_CostMatrix \<and>
         PACKED_COSTS (refresh i opts G g) = PACKED_COSTS g \<and>
         (PACKED_COSTS g i = None \<or> opt_refreshMatrix opts \<longrightarrow>
            (\<exists>a g1. getCosts i opts G g = Inr (a, g1) \<and> heap g1 a = new_CostMatrix \<and>
               PACKED_COSTS g1 i = PACKED_COSTS g i \<and>
               (PACKED_COSTS g i = None \<longrightarrow>
                  (\<forall>opts2 G2. \<exists>a2 g2 b2. getCosts i opts2 G2 g1 = Inr (a2, g2) \<and>
                     COSTS_ROOM g2 i = Some b2 \<and> next_addr g1 \<le> b2 \<and> b2 < next_addr g2))))"
proof -
  have r: "COSTS_ROOM (refresh i opts G g) i = Some (next_addr g) \<and>
         heap (refresh i opts G g) (next_addr g) = new_CostMatrix \<and>
         PACKED_COSTS (refresh i opts G g) = PACKED_COSTS g"
    by (simp add: refresh_unobservable [OF hid])
  have gc: "\<exists>a g1. getCosts i opts G g = Inr (a, g1) \<and> heap g1 a = new_CostMatrix \<and>
               PACKED_COSTS g1 i = PACKED_COSTS g i \<and>
               (PACKED_COSTS g i = None \<longrightarrow>
                  (\<forall>opts2 G2. \<exists>a2 g2 b2. getCosts i opts2 G2 g1 = Inr (a2, g2) \<and>
                     COSTS_ROOM g2 i = Some b2 \<and> next_addr g1 \<le> b2 \<and> b2 < next_addr g2))"
    if c: "PACKED_COSTS g i = None \<or> opt_refreshMatrix opts"
  proof -
    obtain a g1 where e: "getCosts i opts G g = Inr (a, g1)" using getCosts_total by blast
    from e hid c have z: "heap g1 a = new_CostMatrix" and p: "PACKED_COSTS g1 i = PACKED_COSTS g i"
      unfolding getCosts_def Let_def
      by (auto simp: refresh_unobservable reset_fields split: if_splits)
    have nxt: "\<exists>a2 g2 b2. getCosts i opts2 G2 g1 = Inr (a2, g2) \<and>
                     COSTS_ROOM g2 i = Some b2 \<and> next_addr g1 \<le> b2 \<and> b2 < next_addr g2"
      if n: "PACKED_COSTS g i = None" for opts2 G2
    proof -
      obtain a2 g2 where e2: "getCosts i opts2 G2 g1 = Inr (a2, g2)" using getCosts_total by blast
      from n p have n1: "PACKED_COSTS g1 i = None" by simp
      from e2 n1 have "\<exists>b2. COSTS_ROOM g2 i = Some b2 \<and> next_addr g1 \<le> b2 \<and> b2 < next_addr g2"
        unfolding getCosts_def Let_def
        by (auto simp: refresh_fields reset_fields alloc_def addCreeps_def Let_def
            split: option.splits if_splits sum.splits prod.splits)
      with e2 show ?thesis by blast
    qed
    from e z p nxt show ?thesis by blast
  qed
  from r gc show ?thesis by blast
qed

theorem unobservable_region_witness:
  "Game_rooms (world_hidden 1) roomA = None \<and> PACKED_COSTS (module_load 1) roomA = None \<and>
   COSTS_ROOM (refresh roomA opts0 (world_hidden 1) (module_load 1)) roomA = Some 0 \<and>
   heap (refresh roomA opts0 (world_hidden 1) (module_load 1)) 0 = new_CostMatrix \<and>
   PACKED_COSTS (refresh roomA opts0 (world_hidden 1) (module_load 1)) = PACKED_COSTS (module_load 1) \<and>
   (\<exists>g1. getCosts roomA opts0 (world_hidden 1) (module_load 1) = Inr (0, g1) \<and>
      heap g1 0 = new_CostMatrix \<and> PACKED_COSTS g1 roomA = None \<and>
      (\<exists>a2 g2 b2. getCosts roomA opts0 (world_visible 1) g1 = Inr (a2, g2) \<and>
         COSTS_ROOM g2 roomA = Some b2 \<and> next_addr g1 \<le> b2 \<and> b2 < next_addr g2))"
proof -
  have h: "Game_rooms (world_hidden 1) roomA = None" by (simp add: world_hidden_def)
  have n: "PACKED_COSTS (module_load 1) roomA = None" by (simp add: module_load_def)
  have na: "next_addr (module_load 1) = 0" by (simp add: module_load_def)
  from unobservable_region [OF h, of opts0 "module_load 1"] n na
  have r: "COSTS_ROOM (refresh roomA opts0 (world_hidden 1) (module_load 1)) roomA = Some 0 \<and>
   heap (refresh roomA opts0 (world_hidden 1) (module_load 1)) 0 = new_CostMatrix \<and>
   PACKED_COSTS (refresh roomA opts0 (world_hidden 1) (module_load 1)) = PACKED_COSTS (module_load 1)"
    and "\<exists>a g1. getCosts roomA opts0 (world_hidden 1) (module_load 1) = Inr (a, g1) \<and>
               heap g1 a = new_CostMatrix \<and> PACKED_COSTS g1 roomA = None \<and>
               (\<forall>opts2 G2. \<exists>a2 g2 b2. getCosts roomA opts2 G2 g1 = Inr (a2, g2) \<and>
                     COSTS_ROOM g2 roomA = Some b2 \<and> next_addr g1 \<le> b2 \<and> b2 < next_addr g2)"
    by simp_all
  then obtain a g1 where e: "getCosts roomA opts0 (world_hidden 1) (module_load 1) = Inr (a, g1)"
    and z: "heap g1 a = new_CostMatrix" and p: "PACKED_COSTS g1 roomA = None"
    and nxt: "\<forall>opts2 G2. \<exists>a2 g2 b2. getCosts roomA opts2 G2 g1 = Inr (a2, g2) \<and>
                     COSTS_ROOM g2 roomA = Some b2 \<and> next_addr g1 \<le> b2 \<and> b2 < next_addr g2"
    by blast
  from tick1_hidden e have a: "a = 0" by auto
  from nxt have "\<exists>a2 g2 b2. getCosts roomA opts0 (world_visible 1) g1 = Inr (a2, g2) \<and>
         COSTS_ROOM g2 roomA = Some b2 \<and> next_addr g1 \<le> b2 \<and> b2 < next_addr g2" by blast
  with h n r e z p a show ?thesis by blast
qed

text \<open>
  C5 as stated fails: a region that was observable in tick 1 and is not observable in tick 2
  is served from the durable store in tick 2, and the grid returned holds the road of tick 1.
\<close>

theorem hidden_region_served_durably_counterexample:
  "Game_rooms (world_hidden 2) roomA = None \<and>
   getCosts roomA opts0 (world_visible 1) (module_load 1) = Inr (0, tick1_state) \<and>
   (\<exists>g2. getCosts roomA opts0 (world_hidden 2) tick1_state = Inr (1, g2) \<and>
      bits (heap g2 1) ! 510 = 1 \<and> PACKED_COSTS g2 roomA \<noteq> None)"
  using tick1 tick2_hidden by (simp add: world_hidden_def)

subsection \<open>Cartographer and Navigator\<close>

lemma isWallAt_memo:
  assumes "memo_consistent G terr"
  shows "fst (isWallAt x y rn G terr) = (Room_Terrain G rn x y = TERRAIN_MASK_WALL) \<and>
         memo_consistent G (snd (isWallAt x y rn G terr))"
  using assms by (auto simp: isWallAt_def memo_consistent_def Let_def split: option.splits)

lemma find_Some_holds: "find P xs = Some x \<Longrightarrow> x \<in> set xs \<and> P x"
  by (induction xs) (auto split: if_splits)

lemma getRange_rules:
  assumes "memo_consistent G terr"
  shows "fst (getRange goal opts G terr) = goalTolerance_rules goal opts G \<and>
         memo_consistent G (snd (getRange goal opts G terr))"
proof -
  obtain wall terr1 where w: "isWallAt (pos_x goal) (pos_y goal) (roomName goal) G terr = (wall, terr1)"
    by (cases "isWallAt (pos_x goal) (pos_y goal) (roomName goal) G terr")
  from isWallAt_memo [OF assms, of "pos_x goal" "pos_y goal" "roomName goal"] w
  have wl: "wall = (Room_Terrain G (roomName goal) (pos_x goal) (pos_y goal) = TERRAIN_MASK_WALL)"
    and m1: "memo_consistent G terr1" by simp_all
  show ?thesis
    using assms w wl m1
    by (auto simp: getRange_def goalTolerance_rules_def find_None_iff
        split: option.splits dest!: find_Some_holds)
qed

lemma rules_eq_spec:
  assumes "\<And>room s. Game_rooms G (roomName goal) = Some room \<Longrightarrow>
             s \<in> set (lookForAt_structures room (Some (pos_x goal)) (Some (pos_y goal))) \<Longrightarrow>
             structureType s = STRUCTURE_RAMPART \<Longrightarrow> \<not> (struct_my s \<or> isPublic s)"
  shows "goalTolerance_rules goal opts G = goalTolerance_spec goal opts G"
  using assms
  by (auto simp: goalTolerance_rules_def goalTolerance_spec_def non_passable_def structure_cost_def
      STRUCTURE_ROAD_def STRUCTURE_RAMPART_def STRUCTURE_CONTAINER_def split: option.splits if_splits)


lemma findPath_far:
  assumes "getRoomLinearDistance G (roomName start) (roomName goal) > 2"
  shows "findPath E start goal opts G st = Inl TypeError"
  using assms by (simp add: findPath_def this_findRoute_def Let_def split: prod.splits)

lemma findPath_near:
  assumes "getRoomLinearDistance G (roomName start) (roomName goal) \<le> 2"
  shows "findPath E start goal opts G (g, tr) =
           (case callPathFinder E start goal opts None G (g, tr) of
              Inl e \<Rightarrow> Inl e
            | Inr (res, g1, tr2) \<Rightarrow>
                if sr_incomplete res then Inl TypeError
                else Inr (serializePath E (sr_path res) start opts, g1, tr2))"
  using assms
  by (simp add: findPath_def this_findRoute_def Let_def split: sum.splits prod.splits)








lemma stalled_step:
  assumes p: "nav_path c \<noteq> []" and t: "nav_target c = positionToId goal"
    and l: "positionFromId (nav_last c) = Some p2"
    and x: "pos_x p2 = pos_x (creep_pos creep)" and y: "pos_y p2 = pos_y (creep_pos creep)"
    and s: "nav_stuck c \<le> 1"
  shows "getNextMove E creep goal opts rnd G (Some c, g, tr) =
           Inr (toNumber (first_unit (nav_path c)),
                c\<lparr>nav_stuck := nav_stuck c + 1, nav_last := positionToId (creep_pos creep)\<rparr>,
                opts, g,
                if nav_stuck c + 1 > 1 then tr @ [EvSay (creep_name creep) (nav_stuck c + 1)] else tr)"
  using assms by (simp add: getNextMove_def isAtExpected_def Let_def)



text \<open>
  C6 (as amended). With a memo table that holds terrain of this world only, the range that
  \<open>getRange\<close> gives, and that \<open>callPathFinder\<close> passes to the search primitive as the range of
  the goal, is decided by the first rule that matches: the explicit range option if present;
  else 1 if the goal cell is a terrain wall; else 0 if the goal's region is not observable;
  else 1 if agent tracking is enabled and an agent occupies the goal cell; else 1 if a
  structure other than a road or a container occupies the goal cell (a rampart counts, also
  one that is passable); else 0. The rules differ from the stated ones, with a structure that
  is not passable in the last test, only when a rampart of the player's own or a public one is
  at the goal.
\<close>

theorem getRange_first_matching_rule:
  assumes "memo_consistent G (TERRAIN g)"
  shows "fst (getRange goal opts G (TERRAIN g)) = goalTolerance_rules goal opts G \<and>
         memo_consistent G (snd (getRange goal opts G (TERRAIN g))) \<and>
         ((\<forall>room s. Game_rooms G (roomName goal) = Some room \<and>
                    s \<in> set (lookForAt_structures room (Some (pos_x goal)) (Some (pos_y goal))) \<and>
                    structureType s = STRUCTURE_RAMPART \<longrightarrow> \<not> (struct_my s \<or> isPublic s))
            \<longrightarrow> goalTolerance_rules goal opts G = goalTolerance_spec goal opts G) \<and>
         callPathFinder E start goal opts route G (g, tr) =
           (case PathFinder_search E start \<lparr>goal_range = goalTolerance_rules goal opts G, goal_pos = goal\<rparr>
                   (search_opts opts route G) G (g\<lparr>TERRAIN := snd (getRange goal opts G (TERRAIN g))\<rparr>) of
              Inl e \<Rightarrow> Inl e
            | Inr (res, g1) \<Rightarrow>
                Inr (res, g1,
                     tr @ [EvSearch start \<lparr>goal_range = goalTolerance_rules goal opts G, goal_pos = goal\<rparr>
                             (so_maxRooms (search_opts opts route G))]))"
proof -
  obtain r terr1 where gr: "getRange goal opts G (TERRAIN g) = (r, terr1)"
    by (cases "getRange goal opts G (TERRAIN g)")
  from getRange_rules [OF assms, of goal opts] gr
  have r: "r = goalTolerance_rules goal opts G" and m: "memo_consistent G terr1" by simp_all
  have "callPathFinder E start goal opts route G (g, tr) =
           (case PathFinder_search E start \<lparr>goal_range = r, goal_pos = goal\<rparr>
                   (search_opts opts route G) G (g\<lparr>TERRAIN := terr1\<rparr>) of
              Inl e \<Rightarrow> Inl e
            | Inr (res, g1) \<Rightarrow>
                Inr (res, g1,
                     tr @ [EvSearch start \<lparr>goal_range = r, goal_pos = goal\<rparr>
                             (so_maxRooms (search_opts opts route G))]))"
    by (simp add: callPathFinder_def Let_def gr)
  moreover have "(\<forall>room s. Game_rooms G (roomName goal) = Some room \<and>
                    s \<in> set (lookForAt_structures room (Some (pos_x goal)) (Some (pos_y goal))) \<and>
                    structureType s = STRUCTURE_RAMPART \<longrightarrow> \<not> (struct_my s \<or> isPublic s))
            \<longrightarrow> goalTolerance_rules goal opts G = goalTolerance_spec goal opts G"
    using rules_eq_spec [of G goal opts] by blast
  ultimately show ?thesis unfolding r using gr r m by simp
qed

theorem getRange_first_matching_rule_witness:
  "memo_consistent (world_visible 1) (TERRAIN (module_load 1)) \<and>
   fst (getRange (pos_A 10 10) opts0 (world_visible 1) (TERRAIN (module_load 1))) =
     goalTolerance_rules (pos_A 10 10) opts0 (world_visible 1) \<and>
   goalTolerance_rules (pos_A 10 10) opts0 (world_visible 1) = 0 \<and>
   goalTolerance_rules (pos_A 10 10) (opts0\<lparr>opt_range := Some 3\<rparr>) (world_visible 1) = 3 \<and>
   goalTolerance_rules (pos_A 10 11) (opts0\<lparr>opt_trackCreeps := True\<rparr>) (world_visible 1) = 1 \<and>
   goalTolerance_rules (pos_A 10 10) opts0 world_rampart = 1 \<and>
   goalTolerance_spec (pos_A 10 10) opts0 (world_visible 1) = 0"
proof -
  have m: "memo_consistent (world_visible 1) (TERRAIN (module_load 1))"
    by (simp add: memo_consistent_def module_load_def)
  have e: "goalTolerance_rules (pos_A 10 10) opts0 (world_visible 1) = 0 \<and>
   goalTolerance_rules (pos_A 10 10) (opts0\<lparr>opt_range := Some 3\<rparr>) (world_visible 1) = 3 \<and>
   goalTolerance_rules (pos_A 10 11) (opts0\<lparr>opt_trackCreeps := True\<rparr>) (world_visible 1) = 1 \<and>
   goalTolerance_rules (pos_A 10 10) opts0 world_rampart = 1"
    by (simp add: goalTolerance_rules_def pos_A_def opts0_def world_visible_def
        world_rampart_def room1_def room_rampart_def road_10_10_def own_rampart_def creep_10_11_def
        TERRAIN_MASK_WALL_def STRUCTURE_ROAD_def STRUCTURE_RAMPART_def STRUCTURE_CONTAINER_def)
  have n: "\<forall>room s. Game_rooms (world_visible 1) (roomName (pos_A 10 10)) = Some room \<and>
                    s \<in> set (lookForAt_structures room (Some (pos_x (pos_A 10 10))) (Some (pos_y (pos_A 10 10)))) \<and>
                    structureType s = STRUCTURE_RAMPART \<longrightarrow> \<not> (struct_my s \<or> isPublic s)"
    by (simp add: pos_A_def world_visible_def room1_def road_10_10_def STRUCTURE_ROAD_def
        STRUCTURE_RAMPART_def)
  from getRange_first_matching_rule [OF m, of "pos_A 10 10" opts0] n
  have "fst (getRange (pos_A 10 10) opts0 (world_visible 1) (TERRAIN (module_load 1))) =
          goalTolerance_rules (pos_A 10 10) opts0 (world_visible 1)"
    and "goalTolerance_rules (pos_A 10 10) opts0 (world_visible 1) =
          goalTolerance_spec (pos_A 10 10) opts0 (world_visible 1)"
    by blast+
  with m e show ?thesis by simp
qed

text \<open>
  C6 as stated fails on the last rule: a rampart of the player's own, which the cost grid
  leaves passable (cost 0), gives the range 1, where the stated rules give 0.
\<close>

theorem getRange_own_rampart_counterexample:
  "fst (getRange (pos_A 10 10) opts0 world_rampart Map.empty) = 1 \<and>
   goalTolerance_spec (pos_A 10 10) opts0 world_rampart = 0 \<and>
   lookForAt_structures room_rampart (Some 10) (Some 10) = [own_rampart] \<and>
   structure_cost own_rampart = 0"
  by (simp add: getRange_def isWallAt_def goalTolerance_spec_def pos_A_def opts0_def world_rampart_def
      room_rampart_def own_rampart_def non_passable_def structure_cost_def TERRAIN_MASK_WALL_def
      STRUCTURE_ROAD_def STRUCTURE_RAMPART_def STRUCTURE_CONTAINER_def Let_def)

text \<open>
  C7. The claim does not hold of the code. \<open>findPath\<close> asks for the region route through
  \<open>this.findRoute\<close>, which the class does not have: when the regions of start and goal are more
  than 2 apart the call raises a TypeError before any search, whatever the engine, the options
  and the module state. When the distance is 2 or less the first thing \<open>findPath\<close> does is the
  search with no route (and \<open>maxRooms\<close> the option, else 16); it returns the serialised path of
  a complete result and raises the same TypeError on an incomplete one, where the retry asks
  for the route. \<open>callPathFinder\<close> is written to pass \<open>maxRooms\<close> as the option when the caller
  has set it (not 0), else as the length of the route it is given.
\<close>

theorem findPath_far_raises_TypeError:
  "(getRoomLinearDistance G (roomName start) (roomName goal) > 2 \<longrightarrow>
      findPath E start goal opts G (g, tr) = Inl TypeError) \<and>
   (getRoomLinearDistance G (roomName start) (roomName goal) \<le> 2 \<longrightarrow>
      findPath E start goal opts G (g, tr) =
        (case callPathFinder E start goal opts None G (g, tr) of
           Inl e \<Rightarrow> Inl e
         | Inr (res, g1, tr2) \<Rightarrow>
             if sr_incomplete res then Inl TypeError
             else Inr (serializePath E (sr_path res) start opts, g1, tr2))) \<and>
   so_maxRooms (search_opts opts (Some route) G) = or_default (opt_maxRooms opts) (int (length route)) \<and>
   so_maxRooms (search_opts opts None G) = or_default (opt_maxRooms opts) 16"
  using findPath_far [of G start goal E opts "(g, tr)"] findPath_near [of G start goal E opts g tr]
  by (simp add: search_opts_def)

lemma near_searches:
  "callPathFinder engine_step (pos_A 10 10) (pos_A 20 20) opts0 None (world_visible 1) (module_load 1, []) =
     Inr (\<lparr>sr_path = [pos_A 11 10], sr_incomplete = False\<rparr>, module_load 1\<lparr>TERRAIN := [roomA \<mapsto> (\<lambda>x y. 0)]\<rparr>,
          [EvSearch (pos_A 10 10) \<lparr>goal_range = 0, goal_pos = pos_A 20 20\<rparr> 16])"
  "callPathFinder engine_nopath (pos_A 10 10) (pos_A 20 20) opts0 None (world_visible 1) (module_load 1, []) =
     Inr (\<lparr>sr_path = [], sr_incomplete = True\<rparr>, module_load 1\<lparr>TERRAIN := [roomA \<mapsto> (\<lambda>x y. 0)]\<rparr>,
          [EvSearch (pos_A 10 10) \<lparr>goal_range = 0, goal_pos = pos_A 20 20\<rparr> 16])"
  by (simp_all add: callPathFinder_def getRange_def isWallAt_def search_opts_def or_default_def
      engine_step_def engine_nopath_def world_visible_def room1_def pos_A_def opts0_def
      module_load_def TERRAIN_MASK_WALL_def Let_def)

theorem findPath_far_raises_TypeError_witness:
  "getRoomLinearDistance world_far roomA roomB = 5 \<and>
   findPath engine_step (pos_A 10 10) (pos_B 20 20) opts0 world_far (module_load 1, []) = Inl TypeError \<and>
   findPath engine_step (pos_A 10 10) (pos_B 20 20) (opts0\<lparr>opt_maxRooms := Some 3\<rparr>) world_far
      (module_load 1, []) = Inl TypeError \<and>
   getRoomLinearDistance (world_visible 1) roomA roomA = 0 \<and>
   findPath engine_step (pos_A 10 10) (pos_A 20 20) opts0 (world_visible 1) (module_load 1, []) =
     Inr ([fromCharCode 51], module_load 1\<lparr>TERRAIN := [roomA \<mapsto> (\<lambda>x y. 0)]\<rparr>,
          [EvSearch (pos_A 10 10) \<lparr>goal_range = 0, goal_pos = pos_A 20 20\<rparr> 16]) \<and>
   findPath engine_nopath (pos_A 10 10) (pos_A 20 20) opts0 (world_visible 1) (module_load 1, []) =
     Inl TypeError"
proof -
  have ne: "roomA \<noteq> roomB" by (simp add: roomA_def roomB_def fromCharCode_def)
  have far: "getRoomLinearDistance world_far (roomName (pos_A 10 10)) (roomName (pos_B 20 20)) = 5"
    using ne by (simp add: world_far_def pos_A_def pos_B_def)
  have near: "getRoomLinearDistance (world_visible 1) (roomName (pos_A 10 10)) (roomName (pos_A 20 20)) = 0"
    by (simp add: world_visible_def)
  have ser: "serializePath engine_step [pos_A 11 10] (pos_A 10 10) opts0 = [fromCharCode 51]"
    by (simp add: serializePath_def toString_def decimal.simps engine_step_def RIGHT_def pos_A_def)
  have a: "findPath engine_step (pos_A 10 10) (pos_B 20 20) opts0 world_far (module_load 1, []) = Inl TypeError"
    using findPath_far_raises_TypeError [of world_far "pos_A 10 10" "pos_B 20 20" engine_step opts0
        "module_load 1" "[]"] far by simp
  have b: "findPath engine_step (pos_A 10 10) (pos_B 20 20) (opts0\<lparr>opt_maxRooms := Some 3\<rparr>) world_far
      (module_load 1, []) = Inl TypeError"
    using findPath_far_raises_TypeError [of world_far "pos_A 10 10" "pos_B 20 20" engine_step
        "opts0\<lparr>opt_maxRooms := Some 3\<rparr>" "module_load 1" "[]"] far by simp
  have near2: "getRoomLinearDistance (world_visible 1) (roomName (pos_A 10 10)) (roomName (pos_A 20 20)) \<le> 2"
    using near by simp
  have c0: "findPath engine_step (pos_A 10 10) (pos_A 20 20) opts0 (world_visible 1) (module_load 1, []) =
        (case callPathFinder engine_step (pos_A 10 10) (pos_A 20 20) opts0 None (world_visible 1) (module_load 1, []) of
           Inl e \<Rightarrow> Inl e
         | Inr (res, g1, tr2) \<Rightarrow>
             if sr_incomplete res then Inl TypeError
             else Inr (serializePath engine_step (sr_path res) (pos_A 10 10) opts0, g1, tr2))"
    using findPath_far_raises_TypeError [of "world_visible 1" "pos_A 10 10" "pos_A 20 20" engine_step opts0
        "module_load 1" "[]"] near2 by blast
  have c: "findPath engine_step (pos_A 10 10) (pos_A 20 20) opts0 (world_visible 1) (module_load 1, []) =
     Inr ([fromCharCode 51], module_load 1\<lparr>TERRAIN := [roomA \<mapsto> (\<lambda>x y. 0)]\<rparr>,
          [EvSearch (pos_A 10 10) \<lparr>goal_range = 0, goal_pos = pos_A 20 20\<rparr> 16])"
    unfolding c0 near_searches by (simp add: ser)
  have d0: "findPath engine_nopath (pos_A 10 10) (pos_A 20 20) opts0 (world_visible 1) (module_load 1, []) =
        (case callPathFinder engine_nopath (pos_A 10 10) (pos_A 20 20) opts0 None (world_visible 1) (module_load 1, []) of
           Inl e \<Rightarrow> Inl e
         | Inr (res, g1, tr2) \<Rightarrow>
             if sr_incomplete res then Inl TypeError
             else Inr (serializePath engine_nopath (sr_path res) (pos_A 10 10) opts0, g1, tr2))"
    using findPath_far_raises_TypeError [of "world_visible 1" "pos_A 10 10" "pos_A 20 20" engine_nopath opts0
        "module_load 1" "[]"] near2 by blast
  have d: "findPath engine_nopath (pos_A 10 10) (pos_A 20 20) opts0 (world_visible 1) (module_load 1, []) =
     Inl TypeError"
    unfolding d0 near_searches by simp
  from far near a b c d show ?thesis by (simp add: pos_A_def pos_B_def)
qed





text \<open>
  C9 (as amended). Take an agent with a non-empty cached path, an unchanged goal and a stall
  counter of 0, at a position of the room grid that equals the position recorded last, on two
  consecutive steps. The stall counter is 1 after the first step and 2 after the second, and
  neither step takes a move from the cached sequence: both return its first move and leave
  the sequence, the options and the module state as they are.
\<close>

theorem stall_counter_two_steps:
  assumes "nav_path c \<noteq> []" "nav_target c = positionToId goal" "nav_stuck c = 0"
    and "positionFromId (nav_last c) = Some p2"
    and "pos_x p2 = pos_x (creep_pos creep)" "pos_y p2 = pos_y (creep_pos creep)"
    and "0 \<le> pos_x (creep_pos creep)" "pos_x (creep_pos creep) \<le> 49"
    and "0 \<le> pos_y (creep_pos creep)" "pos_y (creep_pos creep) \<le> 49"
  shows "\<exists>mv c1 tr1 c2 tr2.
           getNextMove E creep goal opts rnd1 G1 (Some c, g, tr) = Inr (mv, c1, opts, g, tr1) \<and>
           getNextMove E creep goal opts rnd2 G2 (Some c1, g, tr1) = Inr (mv, c2, opts, g, tr2) \<and>
           nav_stuck c1 = 1 \<and> nav_stuck c2 = 2 \<and>
           nav_path c1 = nav_path c \<and> nav_path c2 = nav_path c \<and>
           mv = toNumber (first_unit (nav_path c))"
proof -
  let ?id = "positionToId (creep_pos creep)"
  let ?c1 = "c\<lparr>nav_stuck := nav_stuck c + 1, nav_last := ?id\<rparr>"
  let ?c2 = "?c1\<lparr>nav_stuck := nav_stuck ?c1 + 1, nav_last := ?id\<rparr>"
  have s0: "nav_stuck c \<le> 1" using assms(3) by simp
  have step1: "getNextMove E creep goal opts rnd1 G1 (Some c, g, tr) =
                 Inr (toNumber (first_unit (nav_path c)), ?c1, opts, g, tr)"
    using stalled_step [OF assms(1,2,4,5,6) s0, where E = E and opts = opts and rnd = rnd1 and G = G1
        and g = g and tr = tr] assms(3) by simp
  have rt: "positionFromId (nav_last ?c1) =
              Some \<lparr>pos_x = pos_x (creep_pos creep), pos_y = pos_y (creep_pos creep),
                    roomName = roomName (creep_pos creep)\<rparr>"
    using position_id_roundtrip [OF assms(7,8,9,10)] by simp
  have p1: "nav_path ?c1 \<noteq> []" "nav_target ?c1 = positionToId goal" "nav_stuck ?c1 \<le> 1"
    using assms(1,2,3) by simp_all
  have step2: "getNextMove E creep goal opts rnd2 G2 (Some ?c1, g, tr) =
                 Inr (toNumber (first_unit (nav_path c)), ?c2, opts, g,
                      tr @ [EvSay (creep_name creep) 2])"
    using stalled_step [OF p1(1,2) rt _ _ p1(3), where E = E and opts = opts and rnd = rnd2 and G = G2
        and g = g and tr = tr] assms(3) by simp
  have "nav_stuck ?c1 = 1" "nav_stuck ?c2 = 2" "nav_path ?c1 = nav_path c" "nav_path ?c2 = nav_path c"
    using assms(3) by simp_all
  with step1 step2 show ?thesis by blast
qed

theorem stall_counter_two_steps_witness:
  "nav_path (nav_stalled 0) \<noteq> [] \<and> nav_target (nav_stalled 0) = positionToId (pos_A 20 20) \<and>
   nav_stuck (nav_stalled 0) = 0 \<and> positionFromId (nav_last (nav_stalled 0)) = Some (pos_A 10 10) \<and>
   creep_pos own_creep = pos_A 10 10 \<and>
   (\<exists>mv c1 tr1 c2 tr2.
      getNextMove engine_step own_creep (pos_A 20 20) opts0 0 (world_visible 2) (Some (nav_stalled 0), tick1_state, []) =
        Inr (mv, c1, opts0, tick1_state, tr1) \<and>
      getNextMove engine_step own_creep (pos_A 20 20) opts0 0 (world_visible 3) (Some c1, tick1_state, tr1) =
        Inr (mv, c2, opts0, tick1_state, tr2) \<and>
      nav_stuck c1 = 1 \<and> nav_stuck c2 = 2 \<and>
      nav_path c1 = nav_path (nav_stalled 0) \<and> nav_path c2 = nav_path (nav_stalled 0))"
proof -
  have h1: "nav_path (nav_stalled 0) \<noteq> []" by (simp add: nav_stalled_def)
  have h2: "nav_target (nav_stalled 0) = positionToId (pos_A 20 20)" by (simp add: nav_stalled_def)
  have h3: "nav_stuck (nav_stalled 0) = 0" by (simp add: nav_stalled_def)
  have h4: "positionFromId (nav_last (nav_stalled 0)) = Some (pos_A 10 10)"
    using position_id_roundtrip [of "pos_A 10 10"] by (simp add: nav_stalled_def pos_A_def)
  have h5: "creep_pos own_creep = pos_A 10 10" by (simp add: own_creep_def)
  have h6: "pos_x (pos_A 10 10) = pos_x (creep_pos own_creep)" "pos_y (pos_A 10 10) = pos_y (creep_pos own_creep)"
    "0 \<le> pos_x (creep_pos own_creep)" "pos_x (creep_pos own_creep) \<le> 49"
    "0 \<le> pos_y (creep_pos own_creep)" "pos_y (creep_pos own_creep) \<le> 49"
    by (simp_all add: own_creep_def pos_A_def)
  have "\<exists>mv c1 tr1 c2 tr2.
      getNextMove engine_step own_creep (pos_A 20 20) opts0 0 (world_visible 2) (Some (nav_stalled 0), tick1_state, []) =
        Inr (mv, c1, opts0, tick1_state, tr1) \<and>
      getNextMove engine_step own_creep (pos_A 20 20) opts0 0 (world_visible 3) (Some c1, tick1_state, tr1) =
        Inr (mv, c2, opts0, tick1_state, tr2) \<and>
      nav_stuck c1 = 1 \<and> nav_stuck c2 = 2 \<and>
      nav_path c1 = nav_path (nav_stalled 0) \<and> nav_path c2 = nav_path (nav_stalled 0) \<and>
      mv = toNumber (first_unit (nav_path (nav_stalled 0)))"
    by (rule stall_counter_two_steps [OF h1 h2 h3 h4 h6])
  then have "\<exists>mv c1 tr1 c2 tr2.
      getNextMove engine_step own_creep (pos_A 20 20) opts0 0 (world_visible 2) (Some (nav_stalled 0), tick1_state, []) =
        Inr (mv, c1, opts0, tick1_state, tr1) \<and>
      getNextMove engine_step own_creep (pos_A 20 20) opts0 0 (world_visible 3) (Some c1, tick1_state, tr1) =
        Inr (mv, c2, opts0, tick1_state, tr2) \<and>
      nav_stuck c1 = 1 \<and> nav_stuck c2 = 2 \<and>
      nav_path c1 = nav_path (nav_stalled 0) \<and> nav_path c2 = nav_path (nav_stalled 0)"
    by blast
  with h1 h2 h3 h4 h5 show ?thesis by (intro conjI)
qed

text \<open>
  C9 as stated fails for an agent that has stalled before: with a stall counter of 1, two
  more steps at the recorded position leave the counter at 3 (the random value 100 keeps the
  third stalled step from replanning).
\<close>

theorem stall_counter_three_counterexample:
  "positionFromId (nav_last (nav_stalled 1)) = Some (pos_A 10 10) \<and> creep_pos own_creep = pos_A 10 10 \<and>
   nav_path (nav_stalled 1) \<noteq> [] \<and> nav_target (nav_stalled 1) = positionToId (pos_A 20 20) \<and>
   getNextMove engine_step own_creep (pos_A 20 20) opts0 100 (world_visible 3) (Some (nav_stalled 1), tick1_state, []) =
     Inr (Some 3, nav_stalled 2, opts0, tick1_state, [EvSay ''walker'' 2]) \<and>
   getNextMove engine_step own_creep (pos_A 20 20) opts0 100 (world_visible 4)
       (Some (nav_stalled 2), tick1_state, [EvSay ''walker'' 2]) =
     Inr (Some 3, nav_stalled 3, opts0, tick1_state, [EvSay ''walker'' 2, EvSay ''walker'' 3]) \<and>
   nav_stuck (nav_stalled 3) = 3"
proof -
  have h4: "positionFromId (nav_last (nav_stalled k)) = Some (pos_A 10 10)" for k
    using position_id_roundtrip [of "pos_A 10 10"] by (simp add: nav_stalled_def pos_A_def)
  have a: "getNextMove engine_step own_creep (pos_A 20 20) opts0 100 (world_visible 3) (Some (nav_stalled 1), tick1_state, []) =
     Inr (Some 3, nav_stalled 2, opts0, tick1_state, [EvSay ''walker'' 2])"
    using h4 [of 1]
    by (simp add: getNextMove_def isAtExpected_def nav_stalled_def own_creep_def toNumber_def
        first_unit_def charCode_def fromCharCode_def Let_def)
  have b: "getNextMove engine_step own_creep (pos_A 20 20) opts0 100 (world_visible 4)
       (Some (nav_stalled 2), tick1_state, [EvSay ''walker'' 2]) =
     Inr (Some 3, nav_stalled 3, opts0, tick1_state, [EvSay ''walker'' 2, EvSay ''walker'' 3])"
    using h4 [of 2]
    by (simp add: getNextMove_def isAtExpected_def nav_stalled_def own_creep_def toNumber_def
        first_unit_def charCode_def fromCharCode_def Let_def)
  have c: "creep_pos own_creep = pos_A 10 10" "nav_path (nav_stalled 1) \<noteq> []"
    "nav_target (nav_stalled 1) = positionToId (pos_A 20 20)" "nav_stuck (nav_stalled 3) = 3"
    by (simp_all add: own_creep_def nav_stalled_def)
  from h4 [of 1] a b c show ?thesis by simp
qed

end
